theory Spec2Isabelle
  imports Main "HOL-Library.AList" "HOL-Library.Char_ord" "HOL-Library.List_Lexorder"
begin

section \<open>Data model of the NanoClaw core\<close>

text \<open>
  The class \<open>NanoClawCore\<close> (second part of \<open>src/src/index.ts\<close>, the module the other
  files import as \<open>./core.js\<close>) is embedded as functions over an explicit \<open>world\<close>:
  the fields of the class, the persistent store behind \<open>db.js\<close>, a logical clock and a
  trace of every call made to an external collaborator (channel, queue, logger, worker).

  JavaScript objects used as dictionaries (\<open>Record<string, _>\<close>) and the \<open>Map\<close> built by
  the dispatch loop are association lists: \<open>map_of\<close> reads a key, \<open>AList.update\<close> writes it
  (in place when the key exists, at the end otherwise, which is the insertion order of
  JavaScript for keys that are not array indices; chat ids and folder names are such keys).
  A key that was never written reads as \<open>undefined\<close>: the names that every JavaScript
  object inherits are not chat ids.
\<close>

record RegisteredGroup =
  name :: string
  folder :: string
  trigger :: string
  added_at :: string
  requiresTrigger :: "bool option"   \<comment> \<open>optional field: \<open>None\<close> is \<open>undefined\<close>\<close>

record NewMessage =
  msg_id :: string
  chat_jid :: string
  sender :: string
  sender_name :: string
  content :: string
  timestamp :: string
  is_from_me :: bool
  is_bot_message :: bool

datatype run_status = StatusSuccess | StatusError

text \<open>
  The \<open>result\<close> field of a \<open>ContainerOutput\<close>: absent or \<open>null\<close>, a string, or another
  truthy value, which the code only ever reads through \<open>JSON.stringify\<close>; \<open>ObjResult\<close>
  carries that serialisation.
\<close>

datatype result_value = NoResult | StrResult string | ObjResult string

record ContainerOutput =
  status :: run_status
  result :: result_value
  newSessionId :: "string option"
  error :: "string option"

record ContainerInput =
  prompt :: string
  sessionId :: "string option"
  groupFolder :: string
  chatJid :: string
  isMain :: bool

text \<open>
  What one run of the external worker does, as seen by \<open>runAgent\<close>: the output events it
  streams (each with the time in milliseconds since the previous one), the time until the
  promise settles after the last event, and whether it resolves with a final output or
  rejects.
\<close>

datatype agent_outcome = Returned ContainerOutput | Threw

record agent_run =
  events :: "(nat \<times> ContainerOutput) list"
  final_delay :: nat
  outcome :: agent_outcome

datatype agent_status = AgentSuccess | AgentError

datatype exn = StoreUnavailable | ReadFailed | SyntaxError | TypeError

datatype log_level = Debug | Info | Warn | Error

datatype effect =
    StoreWrite string string              \<comment> \<open>\<open>setRouterState(key, value)\<close> completed\<close>
  | SessionWrite string string            \<comment> \<open>\<open>setSession(folder, id)\<close>\<close>
  | ChanSendMessage string string         \<comment> \<open>\<open>channel.sendMessage(jid, text)\<close>\<close>
  | ChanSetTyping string bool             \<comment> \<open>\<open>channel.setTyping(jid, isTyping)\<close>\<close>
  | QSendMessage string string bool       \<comment> \<open>\<open>queue.sendMessage(jid, text)\<close> and what it returned\<close>
  | QEnqueueMessageCheck string           \<comment> \<open>\<open>queue.enqueueMessageCheck(jid)\<close>\<close>
  | QCloseStdin string                    \<comment> \<open>\<open>queue.closeStdin(jid)\<close>\<close>
  | WriteTasksSnapshot string bool
  | WriteGroupsSnapshot string bool
  | RunContainerAgent string string       \<comment> \<open>\<open>runContainerAgent\<close> called for a chat with a prompt\<close>
  | Log log_level string
  | Sleep nat                             \<comment> \<open>the \<open>setTimeout\<close> promise between two ticks\<close>

record world =
  lastTimestamp :: string
  sessions :: "(string \<times> string) list"
  registeredGroups :: "(string \<times> RegisteredGroup) list"
  lastAgentTimestamp :: "(string \<times> string) list"
  messageLoopRunning :: bool
  router_state :: "(string \<times> string) list"
  session_table :: "(string \<times> string) list"
  group_table :: "(string \<times> RegisteredGroup) list"
  store_faults :: "bool list"
  now :: nat
  trace :: "effect list"

text \<open>
  The modules \<open>config.js\<close>, \<open>db.js\<close>, \<open>router.js\<close>, \<open>group-queue.js\<close> and
  \<open>container-runner.js\<close> are not part of the sources; what the core uses of them is a
  parameter. The two readers of the message table and the worker are functions of their
  arguments: they stand for the table and the worker as they are when the call is made.
  A reader returns \<open>Inl\<close> when the call throws. \<open>JSON_parse\<close> is \<open>None\<close> where
  \<open>JSON.parse\<close> throws a \<open>SyntaxError\<close>; the stored value is only ever written by
  \<open>saveState\<close>, so a value that parses is taken to be a dictionary of strings.
\<close>

record env =
  ASSISTANT_NAME :: string
  MAIN_GROUP_FOLDER :: string
  IDLE_TIMEOUT :: nat
  POLL_INTERVAL :: nat
  TRIGGER_PATTERN_test :: "string \<Rightarrow> bool"
  getMessagesSince :: "string \<Rightarrow> string \<Rightarrow> string \<Rightarrow> exn + NewMessage list"
  getNewMessages :: "string list \<Rightarrow> string \<Rightarrow> string \<Rightarrow> exn + (NewMessage list \<times> string)"
  formatMessages :: "NewMessage list \<Rightarrow> string"
  queue_sendMessage :: "string \<Rightarrow> string \<Rightarrow> bool"
  runContainerAgent :: "RegisteredGroup \<Rightarrow> ContainerInput \<Rightarrow> agent_run"
  JSON_parse :: "string \<Rightarrow> (string \<times> string) list option"
  JSON_stringify :: "(string \<times> string) list \<Rightarrow> string"

section \<open>Statements, exceptions and effects\<close>

text \<open>
  A statement is a function from the world to a result and the world it leaves behind;
  \<open>Inl\<close> is a thrown exception. The world is returned in both cases: what a function
  assigned before it threw stays assigned.
\<close>

type_synonym 'a io = "world \<Rightarrow> (exn + 'a) \<times> world"

definition io_return :: "'a \<Rightarrow> 'a io" where
  "io_return x w = (Inr x, w)"

definition io_throw :: "exn \<Rightarrow> 'a io" where
  "io_throw e w = (Inl e, w)"

definition io_bind :: "'a io \<Rightarrow> ('a \<Rightarrow> 'b io) \<Rightarrow> 'b io" where
  "io_bind m f w = (case m w of (Inl e, w') \<Rightarrow> (Inl e, w') | (Inr x, w') \<Rightarrow> f x w')"

definition io_catch :: "'a io \<Rightarrow> (exn \<Rightarrow> 'a io) \<Rightarrow> 'a io" where
  "io_catch m h w = (case m w of (Inl e, w') \<Rightarrow> h e w' | (Inr x, w') \<Rightarrow> (Inr x, w'))"

definition emit :: "effect \<Rightarrow> unit io" where
  "emit e w = (Inr (), w\<lparr>trace := trace w @ [e]\<rparr>)"

definition io_get :: "(world \<Rightarrow> 'a) \<Rightarrow> 'a io" where
  "io_get f w = (Inr (f w), w)"

definition io_modify :: "(world \<Rightarrow> world) \<Rightarrow> unit io" where
  "io_modify f w = (Inr (), f w)"

definition of_reader :: "exn + 'a \<Rightarrow> 'a io" where
  "of_reader r = (case r of Inl e \<Rightarrow> io_throw e | Inr x \<Rightarrow> io_return x)"

section \<open>The persistent store\<close>

text \<open>
  Modelled from the spec: \<open>db.js\<close> is missing. Section 2 describes the Cursor Store as a
  durable key-to-value state, section 6 says a write is durable when the call returns, and
  section 7 (\<open>StoreUnavailable\<close>) says a persistence call can fail and that the failure
  propagates to the caller. \<open>store_faults\<close> scripts the failures: each call of
  \<open>setRouterState\<close> takes the next entry, \<open>True\<close> makes the call throw and write nothing,
  and a call past the end of the script succeeds. Reads of the store and writes of the
  session table do not fail in this model.
\<close>

definition setRouterState :: "string \<Rightarrow> string \<Rightarrow> unit io" where
  "setRouterState key v w =
     (case store_faults w of
        True # fs \<Rightarrow> (Inl StoreUnavailable, w\<lparr>store_faults := fs\<rparr>)
      | _ \<Rightarrow>
          (Inr (), w\<lparr>router_state := AList.update key v (router_state w),
                     store_faults := tl (store_faults w),
                     trace := trace w @ [StoreWrite key v]\<rparr>))"

definition getRouterState :: "string \<Rightarrow> world \<Rightarrow> string option" where
  "getRouterState key w = map_of (router_state w) key"

definition setSession :: "string \<Rightarrow> string \<Rightarrow> unit io" where
  "setSession fld sid w =
     (Inr (), w\<lparr>session_table := AList.update fld sid (session_table w),
                trace := trace w @ [SessionWrite fld sid]\<rparr>)"

section \<open>Strings\<close>

text \<open>
  A JavaScript string is a sequence of UTF-16 code units; a \<open>string\<close> here is the UTF-8
  encoding of the same text, one \<open>char\<close> per byte. The code reads its strings in four
  ways, and each is written so that it gives on the bytes what JavaScript gives on the
  code units of well-formed text: equality and emptiness (the same on both), the regular
  expression of the internal spans (its literal characters are ASCII, which occur in UTF-8
  only as themselves), \<open>trim\<close>, and \<open>slice\<close>.

  \<open>String.prototype.trim\<close> removes, at both ends, the white space and the line
  terminators of ECMAScript: U+0009 to U+000D, U+0020, U+00A0, U+1680, U+2000 to U+200A,
  U+2028, U+2029, U+202F, U+205F, U+3000 and U+FEFF. \<open>js_white_space\<close> lists their
  encodings. In well-formed UTF-8 the first byte of a character is never a byte inside
  another character, so a text ends with one of these characters exactly when its bytes
  end with the encoding of that character.
\<close>

definition js_white_space :: "string list" where
  "js_white_space =
     [[CHR 0x09], [CHR 0x0A], [CHR 0x0B], [CHR 0x0C], [CHR 0x0D], [CHR 0x20],
      [CHR 0xC2, CHR 0xA0],
      [CHR 0xE1, CHR 0x9A, CHR 0x80],
      [CHR 0xE2, CHR 0x80, CHR 0x80], [CHR 0xE2, CHR 0x80, CHR 0x81],
      [CHR 0xE2, CHR 0x80, CHR 0x82], [CHR 0xE2, CHR 0x80, CHR 0x83],
      [CHR 0xE2, CHR 0x80, CHR 0x84], [CHR 0xE2, CHR 0x80, CHR 0x85],
      [CHR 0xE2, CHR 0x80, CHR 0x86], [CHR 0xE2, CHR 0x80, CHR 0x87],
      [CHR 0xE2, CHR 0x80, CHR 0x88], [CHR 0xE2, CHR 0x80, CHR 0x89],
      [CHR 0xE2, CHR 0x80, CHR 0x8A],
      [CHR 0xE2, CHR 0x80, CHR 0xA8], [CHR 0xE2, CHR 0x80, CHR 0xA9],
      [CHR 0xE2, CHR 0x80, CHR 0xAF],
      [CHR 0xE2, CHR 0x81, CHR 0x9F],
      [CHR 0xE3, CHR 0x80, CHR 0x80],
      [CHR 0xEF, CHR 0xBB, CHR 0xBF]]"

text \<open>Removing, from the front, every leading occurrence of one of the given sequences.\<close>

fun strip_prefixes :: "string list \<Rightarrow> string \<Rightarrow> string" where
  "strip_prefixes ws [] = []"
| "strip_prefixes ws (c # cs) =
     (case find (\<lambda>w. w \<noteq> [] \<and> take (length w) (c # cs) = w) ws of
        None \<Rightarrow> c # cs
      | Some w \<Rightarrow> strip_prefixes ws (drop (length w - 1) cs))"

definition trim :: "string \<Rightarrow> string" where
  "trim s = rev (strip_prefixes (map rev js_white_space) (rev (strip_prefixes js_white_space s)))"

text \<open>
  \<open>raw.slice(0, n)\<close> keeps the first \<open>n\<close> code units. A character of one, two or three
  bytes is one code unit; a character of four bytes is two (a surrogate pair). Where the
  limit falls between the two halves of a pair JavaScript keeps the first half, which is
  not text; \<open>js_slice\<close> ends before that character.
\<close>

definition utf8_length :: "char \<Rightarrow> nat" where
  "utf8_length c =
     (if (of_char c :: nat) < 0x80 then 1
      else if (of_char c :: nat) < 0xE0 then 2
      else if (of_char c :: nat) < 0xF0 then 3
      else 4)"

fun js_slice :: "nat \<Rightarrow> string \<Rightarrow> string" where
  "js_slice n [] = []"
| "js_slice n (c # cs) =
     (if n < (if utf8_length c = 4 then 2 else 1) then []
      else c # take (utf8_length c - 1) cs @
           js_slice (n - (if utf8_length c = 4 then 2 else 1)) (drop (utf8_length c - 1) cs))"

text \<open>
  \<open>raw.replace(/<internal>[\s\S]*?<\/internal>/g, '')\<close>: scanning from the left, an
  opening tag that has a closing tag somewhere after it is removed together with
  everything up to and including the nearest closing tag; the scan goes on after it.
\<close>

fun after_close :: "string \<Rightarrow> string option" where
  "after_close [] = None"
| "after_close (c # cs) =
     (if take 11 (c # cs) = ''</internal>'' then Some (drop 11 (c # cs)) else after_close cs)"

function strip_internal :: "string \<Rightarrow> string" where
  "strip_internal [] = []"
| "strip_internal (c # cs) =
     (if take 10 (c # cs) = ''<internal>'' then
        (case after_close (drop 10 (c # cs)) of
           Some rest \<Rightarrow> strip_internal rest
         | None \<Rightarrow> c # strip_internal cs)
      else c # strip_internal cs)"
  by pat_completeness auto
termination
proof (relation "measure length")
  have shorter: "after_close s = Some r \<Longrightarrow> length r \<le> length s" for s r
    by (induction s) (auto split: if_splits)
  fix c :: char and cs rest :: string
  assume "take 10 (c # cs) = ''<internal>''" and "after_close (drop 10 (c # cs)) = Some rest"
  then have "length rest \<le> length (drop 10 (c # cs))"
    using shorter by blast
  then show "(rest, c # cs) \<in> measure length" by simp
qed simp_all

section \<open>State of the core\<close>

text \<open>\<open>this.lastAgentTimestamp[chatJid] || ''\<close>: a missing entry reads as the empty string.\<close>

definition cursorOf :: "(string \<times> string) list \<Rightarrow> string \<Rightarrow> string" where
  "cursorOf m k = (case map_of m k of None \<Rightarrow> [] | Some v \<Rightarrow> v)"

definition saveState :: "env \<Rightarrow> unit io" where
  "saveState env =
     io_bind (\<lambda>w. setRouterState ''last_timestamp'' (lastTimestamp w) w) (\<lambda>_.
     (\<lambda>w. setRouterState ''last_agent_timestamp''
             (JSON_stringify env (lastAgentTimestamp w)) w))"

definition json_parse :: "env \<Rightarrow> string \<Rightarrow> (string \<times> string) list io" where
  "json_parse env s = (case JSON_parse env s of None \<Rightarrow> io_throw SyntaxError | Some v \<Rightarrow> io_return v)"

definition loadState :: "env \<Rightarrow> unit io" where
  "loadState env =
     io_bind (io_modify (\<lambda>w. w\<lparr>lastTimestamp :=
                (case getRouterState ''last_timestamp'' w of None \<Rightarrow> [] | Some s \<Rightarrow> s)\<rparr>)) (\<lambda>_.
     io_bind (io_get (getRouterState ''last_agent_timestamp'')) (\<lambda>agentTs.
     io_bind
       (io_catch
          (io_bind
             (case agentTs of
                None \<Rightarrow> io_return []
              | Some s \<Rightarrow> if s \<noteq> [] then json_parse env s else io_return [])
             (\<lambda>v. io_modify (\<lambda>w. w\<lparr>lastAgentTimestamp := v\<rparr>)))
          (\<lambda>_. io_bind (emit (Log Warn ''Corrupted last_agent_timestamp in DB, resetting'')) (\<lambda>_.
                io_modify (\<lambda>w. w\<lparr>lastAgentTimestamp := []\<rparr>)))) (\<lambda>_.
     io_bind (io_modify (\<lambda>w. w\<lparr>sessions := session_table w\<rparr>)) (\<lambda>_.
     io_bind (io_modify (\<lambda>w. w\<lparr>registeredGroups := group_table w\<rparr>)) (\<lambda>_.
     emit (Log Info ''State loaded''))))))"

section \<open>One invocation of the worker\<close>

text \<open>
  The local variables of \<open>processGroupMessages\<close> that its closures assign.
  \<open>idleTimer\<close> is the deadline of the pending timeout, on the clock \<open>now\<close>; it is
  \<open>None\<close> when no timeout is pending (never set, cleared, or already fired:
  \<open>clearTimeout\<close> does nothing to those). An invocation is followed from its first to
  its last statement; the ticks of the dispatch loop that may run while it awaits the
  worker are not interleaved with it.
\<close>

record invocation =
  idleTimer :: "nat option"
  hadError :: bool
  outputSentToUser :: bool

definition resetIdleTimer :: "env \<Rightarrow> invocation \<Rightarrow> invocation io" where
  "resetIdleTimer env iv = io_get (\<lambda>w. iv\<lparr>idleTimer := Some (now w + IDLE_TIMEOUT env)\<rparr>)"

text \<open>The callback given to \<open>setTimeout\<close> by \<open>resetIdleTimer\<close>.\<close>

definition idle_timeout :: "string \<Rightarrow> unit io" where
  "idle_timeout jid =
     io_bind (emit (Log Debug ''Idle timeout, closing container stdin'')) (\<lambda>_.
     emit (QCloseStdin jid))"

text \<open>
  Time passing while the core awaits the worker: the clock advances by \<open>d\<close>, and a pending
  timeout whose deadline is reached runs its callback (before whatever happens at the new
  time).
\<close>

definition elapse :: "string \<Rightarrow> nat \<Rightarrow> invocation \<Rightarrow> invocation io" where
  "elapse jid d iv =
     io_bind (io_modify (\<lambda>w. w\<lparr>now := now w + d\<rparr>)) (\<lambda>_.
     io_bind (io_get now) (\<lambda>t.
       (case idleTimer iv of
          None \<Rightarrow> io_return iv
        | Some deadline \<Rightarrow>
            if deadline \<le> t
            then io_bind (idle_timeout jid) (\<lambda>_. io_return (iv\<lparr>idleTimer := None\<rparr>))
            else io_return iv)))"

definition truthy :: "result_value \<Rightarrow> bool" where
  "truthy r = (case r of NoResult \<Rightarrow> False | StrResult s \<Rightarrow> s \<noteq> [] | ObjResult j \<Rightarrow> True)"

definition raw_text :: "result_value \<Rightarrow> string" where
  "raw_text r = (case r of NoResult \<Rightarrow> [] | StrResult s \<Rightarrow> s | ObjResult j \<Rightarrow> j)"

text \<open>The output callback that \<open>processGroupMessages\<close> passes to \<open>runAgent\<close>.\<close>

definition onOutput :: "env \<Rightarrow> string \<Rightarrow> ContainerOutput \<Rightarrow> invocation \<Rightarrow> invocation io" where
  "onOutput env jid res iv =
     io_bind
       (if truthy (result res) then
          (let raw = raw_text (result res);
               text = trim (strip_internal raw)
           in io_bind (emit (Log Info (''Agent output: '' @ js_slice 200 raw))) (\<lambda>_.
              io_bind
                (if text \<noteq> [] then
                   io_bind (emit (ChanSendMessage jid text)) (\<lambda>_.
                   io_return (iv\<lparr>outputSentToUser := True\<rparr>))
                 else io_return iv) (\<lambda>iv1.
              resetIdleTimer env iv1)))
        else io_return iv) (\<lambda>iv2.
     io_return (if status res = StatusError then iv2\<lparr>hadError := True\<rparr> else iv2))"

definition store_session :: "string \<Rightarrow> string option \<Rightarrow> unit io" where
  "store_session fld sid =
     (case sid of
        None \<Rightarrow> io_return ()
      | Some s \<Rightarrow>
          if s \<noteq> [] then
            io_bind (io_modify (\<lambda>w. w\<lparr>sessions := AList.update fld s (sessions w)\<rparr>)) (\<lambda>_.
            setSession fld s)
          else io_return ())"

definition wrappedOnOutput ::
  "env \<Rightarrow> RegisteredGroup \<Rightarrow> string \<Rightarrow> ContainerOutput \<Rightarrow> invocation \<Rightarrow> invocation io" where
  "wrappedOnOutput env grp jid out iv =
     io_bind (store_session (folder grp) (newSessionId out)) (\<lambda>_.
     onOutput env jid out iv)"

fun stream_events ::
  "env \<Rightarrow> RegisteredGroup \<Rightarrow> string \<Rightarrow> (nat \<times> ContainerOutput) list \<Rightarrow> invocation \<Rightarrow> invocation io" where
  "stream_events env grp jid [] iv = io_return iv"
| "stream_events env grp jid ((d, out) # rest) iv =
     io_bind (elapse jid d iv) (\<lambda>iv1.
     io_bind (wrappedOnOutput env grp jid out iv1) (\<lambda>iv2.
     stream_events env grp jid rest iv2))"

text \<open>
  \<open>runAgent\<close>. The two snapshot writers and the channel are taken not to throw. The
  \<open>try\<close> block is the call of \<open>runContainerAgent\<close> and what follows it:
  \<open>run_outcome\<close> is what \<open>runAgent\<close> does once the promise of the worker settles, and
  a worker that rejects is caught and reported as \<open>'error'\<close>.
\<close>

definition run_outcome ::
  "RegisteredGroup \<Rightarrow> agent_outcome \<Rightarrow> invocation \<Rightarrow> (agent_status \<times> invocation) io" where
  "run_outcome grp oc iv =
     (case oc of
        Returned output \<Rightarrow>
          io_bind (store_session (folder grp) (newSessionId output)) (\<lambda>_.
            if status output = StatusError then
              io_bind (emit (Log Error ''Container agent error'')) (\<lambda>_.
              io_return (AgentError, iv))
            else io_return (AgentSuccess, iv))
      | Threw \<Rightarrow>
          io_bind (emit (Log Error ''Agent error'')) (\<lambda>_.
          io_return (AgentError, iv)))"

definition runAgent ::
  "env \<Rightarrow> RegisteredGroup \<Rightarrow> string \<Rightarrow> string \<Rightarrow> invocation \<Rightarrow> (agent_status \<times> invocation) io" where
  "runAgent env grp prmpt jid iv =
     (let isMn = (folder grp = MAIN_GROUP_FOLDER env) in
      io_bind (io_get (\<lambda>w. map_of (sessions w) (folder grp))) (\<lambda>sid.
      io_bind (emit (WriteTasksSnapshot (folder grp) isMn)) (\<lambda>_.
      io_bind (emit (WriteGroupsSnapshot (folder grp) isMn)) (\<lambda>_.
      (let run = runContainerAgent env grp
                   \<lparr>prompt = prmpt, sessionId = sid, groupFolder = folder grp,
                    chatJid = jid, isMain = isMn\<rparr>
       in io_bind (emit (RunContainerAgent jid prmpt)) (\<lambda>_.
          io_bind (stream_events env grp jid (events run) iv) (\<lambda>iv1.
          io_bind (elapse jid (final_delay run) iv1) (\<lambda>iv2.
          run_outcome grp (outcome run) iv2))))))))"

definition needsTrigger :: "env \<Rightarrow> RegisteredGroup \<Rightarrow> bool" where
  "needsTrigger env grp =
     (\<not> (folder grp = MAIN_GROUP_FOLDER env) \<and> requiresTrigger grp \<noteq> Some False)"

definition hasTrigger :: "env \<Rightarrow> NewMessage list \<Rightarrow> bool" where
  "hasTrigger env ms = list_ex (\<lambda>m. TRIGGER_PATTERN_test env (trim (content m))) ms"

text \<open>
  \<open>xs[xs.length - 1].timestamp\<close>: on an empty array the element is \<open>undefined\<close> and
  reading its field throws a \<open>TypeError\<close>.
\<close>

definition last_timestamp :: "NewMessage list \<Rightarrow> string io" where
  "last_timestamp ms = (if ms = [] then io_throw TypeError else io_return (timestamp (last ms)))"

definition set_cursor :: "string \<Rightarrow> string \<Rightarrow> unit io" where
  "set_cursor jid ts =
     io_modify (\<lambda>w. w\<lparr>lastAgentTimestamp := AList.update jid ts (lastAgentTimestamp w)\<rparr>)"

text \<open>
  \<open>processGroupMessages\<close> in three parts: \<open>settle\<close> is what follows the return of
  \<open>runAgent\<close> (lines 255 to 269 of the class), \<open>dispatch\<close> is the invocation from the
  building of the prompt on (lines 212 to 253), and \<open>processGroupMessages\<close> itself
  begins with the checks that return early (lines 194 to 210).
\<close>

definition settle :: "env \<Rightarrow> string \<Rightarrow> string \<Rightarrow> agent_status \<times> invocation \<Rightarrow> bool io" where
  "settle env jid previousCursor r =
     (case r of (output, iv) \<Rightarrow>
      io_bind (emit (ChanSetTyping jid False)) (\<lambda>_.
      if output = AgentError \<or> hadError iv then
        if outputSentToUser iv then
          io_bind (emit (Log Warn
            ''Agent error after output was sent, skipping cursor rollback to prevent duplicates''))
            (\<lambda>_. io_return True)
        else
          io_bind (set_cursor jid previousCursor) (\<lambda>_.
          io_bind (saveState env) (\<lambda>_.
          io_bind (emit (Log Warn ''Agent error, rolled back message cursor for retry'')) (\<lambda>_.
          io_return False)))
      else io_return True))"

definition dispatch :: "env \<Rightarrow> RegisteredGroup \<Rightarrow> string \<Rightarrow> NewMessage list \<Rightarrow> bool io" where
  "dispatch env grp jid missedMessages =
     (let prmpt = formatMessages env missedMessages in
      io_bind (io_get (\<lambda>w. cursorOf (lastAgentTimestamp w) jid)) (\<lambda>previousCursor.
      io_bind (last_timestamp missedMessages) (\<lambda>ts.
      io_bind (set_cursor jid ts) (\<lambda>_.
      io_bind (saveState env) (\<lambda>_.
      io_bind (emit (Log Info ''Processing messages'')) (\<lambda>_.
      io_bind (emit (ChanSetTyping jid True)) (\<lambda>_.
      io_bind (runAgent env grp prmpt jid
                 \<lparr>idleTimer = None, hadError = False, outputSentToUser = False\<rparr>)
        (settle env jid previousCursor))))))))"

definition processGroupMessages :: "env \<Rightarrow> string \<Rightarrow> bool io" where
  "processGroupMessages env jid =
     io_bind (io_get (\<lambda>w. map_of (registeredGroups w) jid)) (\<lambda>g.
     (case g of
        None \<Rightarrow> io_return True
      | Some grp \<Rightarrow>
          io_bind (io_get (\<lambda>w. cursorOf (lastAgentTimestamp w) jid)) (\<lambda>sinceTimestamp.
          io_bind (of_reader (getMessagesSince env jid sinceTimestamp (ASSISTANT_NAME env)))
            (\<lambda>missedMessages.
          if missedMessages = [] then io_return True
          else if needsTrigger env grp \<and> \<not> hasTrigger env missedMessages then io_return True
          else dispatch env grp jid missedMessages))))"

section \<open>The dispatch loop\<close>

text \<open>The \<open>Map\<close> from chat id to the messages of the batch, in order of first message.\<close>

definition add_to_group ::
  "NewMessage \<Rightarrow> (string \<times> NewMessage list) list \<Rightarrow> (string \<times> NewMessage list) list" where
  "add_to_group msg byGroup =
     (case map_of byGroup (chat_jid msg) of
        Some existing \<Rightarrow> AList.update (chat_jid msg) (existing @ [msg]) byGroup
      | None \<Rightarrow> AList.update (chat_jid msg) [msg] byGroup)"

fun partition_messages ::
  "NewMessage list \<Rightarrow> (string \<times> NewMessage list) list \<Rightarrow> (string \<times> NewMessage list) list" where
  "partition_messages [] byGroup = byGroup"
| "partition_messages (msg # rest) byGroup = partition_messages rest (add_to_group msg byGroup)"

text \<open>
  The body of the loop over the groups of a batch; \<open>continue\<close> is returning. The queue
  is a collaborator: what \<open>sendMessage\<close> returns is a parameter, and
  \<open>enqueueMessageCheck\<close> is recorded in the trace. The processing that the queue starts
  for an enqueued chat is a call of \<open>processGroupMessages\<close>, which touches the cursor of
  that chat only; it is stated on its own and is not interleaved with the tick here. The
  promise of \<open>setTyping\<close> is not awaited by the loop and is taken not to reject.
\<close>

definition forward_group :: "env \<Rightarrow> string \<times> NewMessage list \<Rightarrow> unit io" where
  "forward_group env entry =
     (case entry of (jid, groupMessages) \<Rightarrow>
      io_bind (io_get (\<lambda>w. map_of (registeredGroups w) jid)) (\<lambda>g.
      (case g of
         None \<Rightarrow> io_return ()
       | Some grp \<Rightarrow>
           if needsTrigger env grp \<and> \<not> hasTrigger env groupMessages then io_return ()
           else
             io_bind (io_get (\<lambda>w. cursorOf (lastAgentTimestamp w) jid)) (\<lambda>since.
             io_bind (of_reader (getMessagesSince env jid since (ASSISTANT_NAME env))) (\<lambda>allPending.
             (let messagesToSend = (if allPending \<noteq> [] then allPending else groupMessages);
                  formatted = formatMessages env messagesToSend
              in io_bind (emit (QSendMessage jid formatted (queue_sendMessage env jid formatted))) (\<lambda>_.
                 if queue_sendMessage env jid formatted then
                   io_bind (emit (Log Debug ''Piped messages to active container'')) (\<lambda>_.
                   io_bind (last_timestamp messagesToSend) (\<lambda>ts.
                   io_bind (set_cursor jid ts) (\<lambda>_.
                   io_bind (saveState env) (\<lambda>_.
                   emit (ChanSetTyping jid True)))))
                 else emit (QEnqueueMessageCheck jid))))))))"

fun forward_groups :: "env \<Rightarrow> (string \<times> NewMessage list) list \<Rightarrow> unit io" where
  "forward_groups env [] = io_return ()"
| "forward_groups env (entry # rest) =
     io_bind (forward_group env entry) (\<lambda>_. forward_groups env rest)"

text \<open>The \<open>try\<close> block of one iteration.\<close>

definition tick_body :: "env \<Rightarrow> unit io" where
  "tick_body env =
     io_bind (io_get (\<lambda>w. map fst (registeredGroups w))) (\<lambda>jids.
     io_bind (io_get lastTimestamp) (\<lambda>since.
     io_bind (of_reader (getNewMessages env jids since (ASSISTANT_NAME env))) (\<lambda>(messages, newTimestamp).
     if messages \<noteq> [] then
       io_bind (emit (Log Info ''New messages'')) (\<lambda>_.
       io_bind (io_modify (\<lambda>w. w\<lparr>lastTimestamp := newTimestamp\<rparr>)) (\<lambda>_.
       io_bind (saveState env) (\<lambda>_.
       forward_groups env (partition_messages messages []))))
     else io_return ())))"

definition sleep :: "nat \<Rightarrow> unit io" where
  "sleep d = io_bind (io_modify (\<lambda>w. w\<lparr>now := now w + d\<rparr>)) (\<lambda>_. emit (Sleep d))"

text \<open>One iteration of \<open>while (true)\<close>: the \<open>try\<close> block with its handler, then the wait.\<close>

definition tick :: "env \<Rightarrow> unit io" where
  "tick env =
     io_bind (io_catch (tick_body env) (\<lambda>err. emit (Log Error ''Error in message loop''))) (\<lambda>_.
     sleep (POLL_INTERVAL env))"

text \<open>
  The loop has no exit of its own, so it is run on fuel: \<open>message_loop envs i n\<close> runs
  \<open>n\<close> iterations starting with iteration number \<open>i\<close>, iteration \<open>k\<close> seeing the
  collaborators as \<open>envs k\<close> gives them. The loop is \<open>StillRunning\<close> when the fuel is
  used up; an exception that escapes an iteration ends it with \<open>LoopThrew\<close>.
\<close>

datatype loop_outcome = StillRunning | LoopReturned | LoopThrew exn

fun message_loop :: "(nat \<Rightarrow> env) \<Rightarrow> nat \<Rightarrow> nat \<Rightarrow> world \<Rightarrow> loop_outcome \<times> world" where
  "message_loop envs i 0 w = (StillRunning, w)"
| "message_loop envs i (Suc n) w =
     (case tick (envs i) w of
        (Inl e, w') \<Rightarrow> (LoopThrew e, w')
      | (Inr u, w') \<Rightarrow> message_loop envs (Suc i) n w')"

definition startMessageLoop :: "(nat \<Rightarrow> env) \<Rightarrow> nat \<Rightarrow> world \<Rightarrow> loop_outcome \<times> world" where
  "startMessageLoop envs fuel w =
     (if messageLoopRunning w then
        (LoopReturned,
         w\<lparr>trace := trace w @ [Log Debug ''Message loop already running, skipping duplicate start'']\<rparr>)
      else
        message_loop envs 0 fuel
          (w\<lparr>messageLoopRunning := True,
             trace := trace w @
               [Log Info (''NanoClaw running (trigger: @'' @ ASSISTANT_NAME (envs 0) @ '')'')]\<rparr>))"

section \<open>Collaborators for the examples\<close>

text \<open>
  Modelled from the spec: the readers of \<open>db.js\<close> are missing. The glossary defines the
  backlog of a group as its messages with a timestamp greater than the cursor, and section
  4.2 has a tick fetch the messages of the registered groups newer than the global cursor
  and advance that cursor to the newest timestamp fetched. Timestamps are compared as
  strings. The table lists the messages in order of arrival.
\<close>

definition table_getMessagesSince ::
  "NewMessage list \<Rightarrow> string \<Rightarrow> string \<Rightarrow> string \<Rightarrow> exn + NewMessage list" where
  "table_getMessagesSince table jid since botPrefix =
     Inr (filter (\<lambda>m. chat_jid m = jid \<and> since < timestamp m) table)"

definition table_getNewMessages ::
  "NewMessage list \<Rightarrow> string list \<Rightarrow> string \<Rightarrow> string \<Rightarrow> exn + (NewMessage list \<times> string)" where
  "table_getNewMessages table jids since botPrefix =
     (let ms = filter (\<lambda>m. chat_jid m \<in> set jids \<and> since < timestamp m) table
      in Inr (ms, foldl (\<lambda>t m. if t < timestamp m then timestamp m else t) since ms))"

text \<open>
  The remaining parameters, for the closed examples only: a prompt that lists the contents,
  a trigger that is the prefix \<open>@Andy\<close>, a queue with a given set of chats that have an
  active worker, a worker with a given behaviour, and a serialisation of the cursor
  dictionary whose reader accepts the empty dictionary and rejects every other text of the
  examples.
\<close>

definition example_env :: "NewMessage list \<Rightarrow> string list \<Rightarrow> agent_run \<Rightarrow> env" where
  "example_env table active run =
     \<lparr>ASSISTANT_NAME = ''Andy'',
      MAIN_GROUP_FOLDER = ''main'',
      IDLE_TIMEOUT = 1800000,
      POLL_INTERVAL = 2000,
      TRIGGER_PATTERN_test = (\<lambda>s. take 5 s = ''@Andy''),
      getMessagesSince = table_getMessagesSince table,
      getNewMessages = table_getNewMessages table,
      formatMessages = (\<lambda>ms. concat (map (\<lambda>m. ''['' @ content m @ '']'') ms)),
      queue_sendMessage = (\<lambda>jid text. jid \<in> set active),
      runContainerAgent = (\<lambda>grp input. run),
      JSON_parse = (\<lambda>s. if s = ''{}'' then Some [] else None),
      JSON_stringify = (\<lambda>m. ''{'' @ concat (map (\<lambda>(k, v). k @ ''='' @ v @ '';'') m) @ ''}'')\<rparr>"

definition example_group :: "string \<Rightarrow> bool option \<Rightarrow> RegisteredGroup" where
  "example_group fld rt =
     \<lparr>name = ''Family'', folder = fld, trigger = ''@Andy'',
      added_at = ''2026-01-01T00:00:00.000Z'', requiresTrigger = rt\<rparr>"

definition example_message :: "string \<Rightarrow> string \<Rightarrow> string \<Rightarrow> NewMessage" where
  "example_message jid ts txt =
     \<lparr>msg_id = ts, chat_jid = jid, sender = ''user'', sender_name = ''You'', content = txt,
      timestamp = ts, is_from_me = False, is_bot_message = False\<rparr>"

definition example_world :: "(string \<times> RegisteredGroup) list \<Rightarrow> world" where
  "example_world groups =
     \<lparr>lastTimestamp = [], sessions = [], registeredGroups = groups, lastAgentTimestamp = [],
      messageLoopRunning = False, router_state = [], session_table = [], group_table = groups,
      store_faults = [], now = 0, trace = []\<rparr>"

definition example_output :: "run_status \<Rightarrow> result_value \<Rightarrow> ContainerOutput" where
  "example_output st r = \<lparr>status = st, result = r, newSessionId = None, error = None\<rparr>"

definition example_run :: "(nat \<times> ContainerOutput) list \<Rightarrow> nat \<Rightarrow> agent_outcome \<Rightarrow> agent_run" where
  "example_run evs d oc = \<lparr>events = evs, final_delay = d, outcome = oc\<rparr>"

definition silent_run :: agent_run where
  "silent_run = example_run [] 0 (Returned (example_output StatusSuccess NoResult))"

text \<open>
  A group \<open>family\<close> that needs the trigger, with the cursor at \<open>t0\<close> and two newer
  messages in the table, the first of which has the trigger.
\<close>

definition family_world :: world where
  "family_world =
     (example_world [(''family@g.us'', example_group ''family'' None)])
       \<lparr>lastAgentTimestamp := [(''family@g.us'', ''t0'')]\<rparr>"

definition family_table :: "NewMessage list" where
  "family_table =
     [example_message ''family@g.us'' ''t1'' ''@Andy hi'',
      example_message ''family@g.us'' ''t2'' ''are you there'']"


definition answering_then_failing_run :: agent_run where
  "answering_then_failing_run =
     example_run [(10, example_output StatusSuccess (StrResult ''hello''))] 5
       (Returned (example_output StatusError NoResult))"

text \<open>
  A worker whose only output is an internal span followed by a no-break space (U+00A0) and
  a space, and whose final status is an error.
\<close>

definition internal_only_text :: string where
  "internal_only_text = ''<internal>thinking</internal>'' @ [CHR 0xC2, CHR 0xA0] @ '' ''"

definition internal_only_run :: agent_run where
  "internal_only_run =
     example_run [(10, example_output StatusSuccess (StrResult internal_only_text))] 5
       (Returned (example_output StatusError NoResult))"

text \<open>
  A store that takes the two writes made before the worker starts and rejects the next
  one.
\<close>

definition leaky_world :: world where
  "leaky_world = family_world\<lparr>store_faults := [False, False, True]\<rparr>"

section \<open>Vocabulary of the statements\<close>

text \<open>The text of an output event that reaches the user, if it is not empty.\<close>

definition visible_text :: "ContainerOutput \<Rightarrow> string" where
  "visible_text out = trim (strip_internal (raw_text (result out)))"

definition sent_texts :: "(nat \<times> ContainerOutput) list \<Rightarrow> string list" where
  "sent_texts evs = filter (\<lambda>t. t \<noteq> []) (map (\<lambda>e. visible_text (snd e)) evs)"

text \<open>
  The worker that an invocation for the backlog \<open>missed\<close> talks to, whether its run is a
  failure for \<open>processGroupMessages\<close> (\<open>runAgent\<close> returns \<open>'error'\<close> or an event has
  the status \<open>'error'\<close>), and whether one of its events has text for the user.
\<close>

definition worker_run :: "env \<Rightarrow> RegisteredGroup \<Rightarrow> string \<Rightarrow> NewMessage list \<Rightarrow> world \<Rightarrow> agent_run" where
  "worker_run env grp jid missed w =
     runContainerAgent env grp
       \<lparr>prompt = formatMessages env missed, sessionId = map_of (sessions w) (folder grp),
        groupFolder = folder grp, chatJid = jid, isMain = (folder grp = MAIN_GROUP_FOLDER env)\<rparr>"

definition run_failed :: "agent_run \<Rightarrow> bool" where
  "run_failed run =
     (case outcome run of Threw \<Rightarrow> True | Returned out \<Rightarrow> status out = StatusError)"

definition invocation_failed :: "agent_run \<Rightarrow> bool" where
  "invocation_failed run =
     (run_failed run \<or> list_ex (\<lambda>e. status (snd e) = StatusError) (events run))"

definition output_delivered :: "agent_run \<Rightarrow> bool" where
  "output_delivered run = list_ex (\<lambda>e. visible_text (snd e) \<noteq> []) (events run)"

definition is_send :: "effect \<Rightarrow> bool" where
  "is_send e = (case e of ChanSendMessage j t \<Rightarrow> True | _ \<Rightarrow> False)"

definition is_run :: "effect \<Rightarrow> bool" where
  "is_run e = (case e of RunContainerAgent j p \<Rightarrow> True | _ \<Rightarrow> False)"

text \<open>What a running invocation leaves alone, and what it adds to the trace.\<close>

definition cursor_frame :: "world \<Rightarrow> world \<Rightarrow> bool" where
  "cursor_frame w w' \<longleftrightarrow>
     lastTimestamp w' = lastTimestamp w \<and> lastAgentTimestamp w' = lastAgentTimestamp w \<and>
     registeredGroups w' = registeredGroups w \<and> router_state w' = router_state w \<and>
     store_faults w' = store_faults w \<and> messageLoopRunning w' = messageLoopRunning w"

definition run_step :: "string \<Rightarrow> world \<Rightarrow> world \<Rightarrow> string list \<Rightarrow> bool" where
  "run_step jid w w' sent \<longleftrightarrow>
     cursor_frame w w' \<and>
     (\<exists>new. trace w' = trace w @ new \<and> \<not> list_ex is_run new \<and>
            filter is_send new = map (ChanSendMessage jid) sent)"

text \<open>
  The chat an effect concerns, the batch of a chat within the messages of a tick, and
  whether the loop goes on to forward for a chat (the group is registered and the trigger
  check passes).
\<close>

definition effect_jid :: "effect \<Rightarrow> string option" where
  "effect_jid e =
     (case e of
        ChanSendMessage j t \<Rightarrow> Some j
      | ChanSetTyping j b \<Rightarrow> Some j
      | QSendMessage j t b \<Rightarrow> Some j
      | QEnqueueMessageCheck j \<Rightarrow> Some j
      | QCloseStdin j \<Rightarrow> Some j
      | RunContainerAgent j p \<Rightarrow> Some j
      | _ \<Rightarrow> None)"

definition batch_of :: "string \<Rightarrow> NewMessage list \<Rightarrow> NewMessage list" where
  "batch_of jid msgs = filter (\<lambda>m. chat_jid m = jid) msgs"

definition forwardable :: "env \<Rightarrow> world \<Rightarrow> string \<Rightarrow> NewMessage list \<Rightarrow> bool" where
  "forwardable env w jid gm =
     (case map_of (registeredGroups w) jid of
        None \<Rightarrow> False
      | Some grp \<Rightarrow> \<not> (needsTrigger env grp \<and> \<not> hasTrigger env gm))"


definition is_store_write :: "effect \<Rightarrow> bool" where
  "is_store_write e = (case e of StoreWrite k v \<Rightarrow> True | _ \<Rightarrow> False)"

text \<open>
  What forwarding for one entry of the batch, and for a list of entries, may change between
  the world \<open>w\<close> before and the world \<open>w'\<close> after.
\<close>

definition sent_from :: "env \<Rightarrow> world \<Rightarrow> string \<Rightarrow> NewMessage list \<Rightarrow> string \<Rightarrow> bool" where
  "sent_from env w j gm t =
     (\<exists>allPending.
        getMessagesSince env j (cursorOf (lastAgentTimestamp w) j) (ASSISTANT_NAME env) = Inr allPending \<and>
        t = formatMessages env (if allPending \<noteq> [] then allPending else gm))"

definition group_post :: "env \<Rightarrow> string \<Rightarrow> NewMessage list \<Rightarrow> world \<Rightarrow> world \<Rightarrow> bool" where
  "group_post env j gm w w' \<longleftrightarrow>
     lastTimestamp w' = lastTimestamp w \<and> registeredGroups w' = registeredGroups w \<and>
     (\<forall>k. k \<noteq> j \<longrightarrow> map_of (lastAgentTimestamp w') k = map_of (lastAgentTimestamp w) k) \<and>
     (\<not> forwardable env w j gm \<longrightarrow> w' = w) \<and>
     (\<exists>new. trace w' = trace w @ new \<and>
        (\<forall>e\<in>set new. \<forall>j'. effect_jid e = Some j' \<longrightarrow> j' = j) \<and>
        (\<forall>j' t b. QSendMessage j' t b \<in> set new \<longrightarrow> sent_from env w j gm t))"

definition groups_post :: "env \<Rightarrow> (string \<times> NewMessage list) list \<Rightarrow> world \<Rightarrow> world \<Rightarrow> bool" where
  "groups_post env es w w' \<longleftrightarrow>
     lastTimestamp w' = lastTimestamp w \<and> registeredGroups w' = registeredGroups w \<and>
     (\<forall>k. (\<forall>gm. (k, gm) \<in> set es \<longrightarrow> \<not> forwardable env w k gm) \<longrightarrow>
          map_of (lastAgentTimestamp w') k = map_of (lastAgentTimestamp w) k) \<and>
     (\<exists>new. trace w' = trace w @ new \<and>
        (\<forall>e\<in>set new. \<forall>j. effect_jid e = Some j \<longrightarrow>
           (\<exists>gm. (j, gm) \<in> set es \<and> forwardable env w j gm)) \<and>
        (\<forall>j t b. QSendMessage j t b \<in> set new \<longrightarrow>
           (\<exists>gm. (j, gm) \<in> set es \<and> sent_from env w j gm t)))"

text \<open>
  What the \<open>try\<close> block of a tick that fetched the messages \<open>msgs\<close> may change, and the
  effects that a whole tick adds to the trace.
\<close>

definition tick_post :: "env \<Rightarrow> NewMessage list \<Rightarrow> world \<Rightarrow> world \<Rightarrow> bool" where
  "tick_post env msgs w w' \<longleftrightarrow>
     registeredGroups w' = registeredGroups w \<and>
     (\<forall>k. \<not> forwardable env w k (batch_of k msgs) \<longrightarrow>
          map_of (lastAgentTimestamp w') k = map_of (lastAgentTimestamp w) k) \<and>
     (\<exists>new. trace w' = trace w @ new \<and>
        (\<forall>e\<in>set new. \<forall>j. effect_jid e = Some j \<longrightarrow> forwardable env w j (batch_of j msgs)) \<and>
        (\<forall>j t b. QSendMessage j t b \<in> set new \<longrightarrow> sent_from env w j (batch_of j msgs) t))"

definition tick_events :: "env \<Rightarrow> world \<Rightarrow> effect list" where
  "tick_events env w = drop (length (trace w)) (trace (snd (tick env w)))"

text \<open>
  Examples for the dispatch loop. In \<open>faulty_world\<close> the next write to the store
  throws. In \<open>piped_world\<close> the cursor of the
  group is already at \<open>t2\<close> while the global cursor is still empty, as after a recovery at
  startup that handed the backlog to a worker before the first tick. In \<open>lagging_world\<close> the
  global cursor is at \<open>t1\<close> and the cursor of the group at \<open>t0\<close>: the message at \<open>t1\<close>
  arrived without the trigger and is still waiting when the one at \<open>t2\<close> arrives with it.
\<close>

definition faulty_world :: world where
  "faulty_world = family_world\<lparr>store_faults := [True]\<rparr>"

definition piped_world :: world where
  "piped_world = family_world\<lparr>lastAgentTimestamp := [(''family@g.us'', ''t2'')]\<rparr>"

definition lagging_table :: "NewMessage list" where
  "lagging_table =
     [example_message ''family@g.us'' ''t1'' ''good morning'',
      example_message ''family@g.us'' ''t2'' ''@Andy hi'']"

definition lagging_world :: world where
  "lagging_world = family_world\<lparr>lastTimestamp := ''t1''\<rparr>"

text \<open>
  A second group, in the main folder, and a batch with one message for each of the two
  groups, neither with the trigger.
\<close>

definition household_world :: world where
  "household_world =
     (example_world [(''family@g.us'', example_group ''family'' None),
                     (''main@g.us'', example_group ''main'' None)])
       \<lparr>lastAgentTimestamp := [(''family@g.us'', ''t0''), (''main@g.us'', ''t0'')]\<rparr>"

definition household_table :: "NewMessage list" where
  "household_table =
     [example_message ''family@g.us'' ''t1'' ''good morning'',
      example_message ''main@g.us'' ''t2'' ''good evening'']"

text \<open>
  A worker that answers at once and, just before the idle timeout would run out, reports a
  new session in an event without a result.
\<close>

definition marker_run :: agent_run where
  "marker_run =
     example_run
       [(0, example_output StatusSuccess (StrResult ''hello'')),
        (1799999, \<lparr>status = StatusSuccess, result = NoResult, newSessionId = Some ''s1'',
                   error = None\<rparr>)]
       1 (Returned (example_output StatusSuccess NoResult))"

section \<open>Proof tools\<close>

lemmas io_defs = io_return_def io_throw_def io_bind_def io_catch_def emit_def io_get_def
  io_modify_def of_reader_def

subsection \<open>The output callback and the timer\<close>

lemma trim_Nil: "trim [] = []"
  by (simp add: trim_def)

lemma visible_truthy: "visible_text out \<noteq> [] \<Longrightarrow> truthy (result out)"
  by (cases "result out") (auto simp: visible_text_def truthy_def raw_text_def trim_Nil)

lemma onOutput_result:
  "onOutput env jid out iv w =
     (Inr (iv\<lparr>idleTimer := (if truthy (result out) then Some (now w + IDLE_TIMEOUT env) else idleTimer iv),
              hadError := (hadError iv \<or> status out = StatusError),
              outputSentToUser := (outputSentToUser iv \<or> visible_text out \<noteq> [])\<rparr>),
      w\<lparr>trace := trace w @
           (if truthy (result out)
            then Log Info (''Agent output: '' @ js_slice 200 (raw_text (result out))) #
                 (if visible_text out \<noteq> [] then [ChanSendMessage jid (visible_text out)] else [])
            else [])\<rparr>)"
  using visible_truthy[of out]
  by (cases iv) (auto simp: onOutput_def io_defs resetIdleTimer_def Let_def visible_text_def)

lemma idle_timeout_result:
  "idle_timeout jid w =
     (Inr (), w\<lparr>trace := trace w @ [Log Debug ''Idle timeout, closing container stdin'', QCloseStdin jid]\<rparr>)"
  by (simp add: idle_timeout_def io_defs)

lemma elapse_result:
  "elapse jid d iv w =
     (if (\<exists>t. idleTimer iv = Some t \<and> t \<le> now w + d)
      then (Inr (iv\<lparr>idleTimer := None\<rparr>),
            w\<lparr>now := now w + d,
              trace := trace w @ [Log Debug ''Idle timeout, closing container stdin'', QCloseStdin jid]\<rparr>)
      else (Inr iv, w\<lparr>now := now w + d\<rparr>))"
  by (auto simp: elapse_def io_defs idle_timeout_def split: option.splits)

lemma run_step_refl: "run_step jid w w []"
  by (simp add: run_step_def cursor_frame_def)

lemma run_step_trans:
  "run_step jid w w1 s1 \<Longrightarrow> run_step jid w1 w2 s2 \<Longrightarrow> run_step jid w w2 (s1 @ s2)"
  by (auto simp: run_step_def cursor_frame_def)

lemma run_step_emit:
  "\<not> is_run e \<Longrightarrow> \<not> is_send e \<Longrightarrow> run_step jid w (w\<lparr>trace := trace w @ [e]\<rparr>) []"
  by (simp add: run_step_def cursor_frame_def)

lemma store_session_step:
  "\<exists>w'. store_session fld sid w = (Inr (), w') \<and> run_step jid w w' []"
  by (auto simp: store_session_def io_defs setSession_def run_step_def cursor_frame_def
                 is_send_def is_run_def split: option.splits)

lemma onOutput_step:
  "\<exists>iv' w'. onOutput env jid out iv w = (Inr iv', w') \<and>
     hadError iv' = (hadError iv \<or> status out = StatusError) \<and>
     outputSentToUser iv' = (outputSentToUser iv \<or> visible_text out \<noteq> []) \<and>
     run_step jid w w' (if visible_text out \<noteq> [] then [visible_text out] else [])"
  using visible_truthy[of out]
  by (auto simp: onOutput_result run_step_def cursor_frame_def is_send_def is_run_def)

lemma elapse_step:
  "\<exists>iv' w'. elapse jid d iv w = (Inr iv', w') \<and> hadError iv' = hadError iv \<and>
     outputSentToUser iv' = outputSentToUser iv \<and> run_step jid w w' []"
  by (simp add: elapse_result run_step_def cursor_frame_def is_send_def is_run_def)

lemma wrappedOnOutput_step:
  "\<exists>iv' w'. wrappedOnOutput env grp jid out iv w = (Inr iv', w') \<and>
     hadError iv' = (hadError iv \<or> status out = StatusError) \<and>
     outputSentToUser iv' = (outputSentToUser iv \<or> visible_text out \<noteq> []) \<and>
     run_step jid w w' (if visible_text out \<noteq> [] then [visible_text out] else [])"
proof -
  obtain w1 where s: "store_session (folder grp) (newSessionId out) w = (Inr (), w1)"
    and f1: "run_step jid w w1 []"
    using store_session_step by blast
  obtain iv' w' where o: "onOutput env jid out iv w1 = (Inr iv', w')"
    and h: "hadError iv' = (hadError iv \<or> status out = StatusError)"
    and u: "outputSentToUser iv' = (outputSentToUser iv \<or> visible_text out \<noteq> [])"
    and f2: "run_step jid w1 w' (if visible_text out \<noteq> [] then [visible_text out] else [])"
    using onOutput_step by blast
  have "wrappedOnOutput env grp jid out iv w = (Inr iv', w')"
    by (simp add: wrappedOnOutput_def io_bind_def s o)
  moreover have "run_step jid w w' ([] @ (if visible_text out \<noteq> [] then [visible_text out] else []))"
    using f1 f2 by (rule run_step_trans)
  ultimately show ?thesis using h u by auto
qed

lemma stream_events_step:
  "\<exists>iv' w'. stream_events env grp jid evs iv w = (Inr iv', w') \<and>
     hadError iv' = (hadError iv \<or> (\<exists>e\<in>set evs. status (snd e) = StatusError)) \<and>
     outputSentToUser iv' = (outputSentToUser iv \<or> (\<exists>e\<in>set evs. visible_text (snd e) \<noteq> [])) \<and>
     run_step jid w w' (sent_texts evs)"
proof (induction evs arbitrary: iv w)
  case Nil
  show ?case by (simp add: io_return_def run_step_refl sent_texts_def)
next
  case (Cons ev evs)
  obtain d out where ev: "ev = (d, out)" by (cases ev)
  obtain iv1 w1 where e: "elapse jid d iv w = (Inr iv1, w1)"
    and h1: "hadError iv1 = hadError iv" and u1: "outputSentToUser iv1 = outputSentToUser iv"
    and f1: "run_step jid w w1 []"
    using elapse_step by blast
  obtain iv2 w2 where o: "wrappedOnOutput env grp jid out iv1 w1 = (Inr iv2, w2)"
    and h2: "hadError iv2 = (hadError iv1 \<or> status out = StatusError)"
    and u2: "outputSentToUser iv2 = (outputSentToUser iv1 \<or> visible_text out \<noteq> [])"
    and f2: "run_step jid w1 w2 (if visible_text out \<noteq> [] then [visible_text out] else [])"
    using wrappedOnOutput_step by blast
  obtain iv3 w3 where r: "stream_events env grp jid evs iv2 w2 = (Inr iv3, w3)"
    and h3: "hadError iv3 = (hadError iv2 \<or> (\<exists>e\<in>set evs. status (snd e) = StatusError))"
    and u3: "outputSentToUser iv3 = (outputSentToUser iv2 \<or> (\<exists>e\<in>set evs. visible_text (snd e) \<noteq> []))"
    and f3: "run_step jid w2 w3 (sent_texts evs)"
    using Cons.IH by blast
  have "stream_events env grp jid (ev # evs) iv w = (Inr iv3, w3)"
    by (simp add: ev io_bind_def e o r)
  moreover have "run_step jid w w3 (sent_texts (ev # evs))"
    using run_step_trans[OF run_step_trans[OF f1 f2] f3]
    by (cases "visible_text out = []") (simp_all add: sent_texts_def ev)
  ultimately show ?case using h1 h2 h3 u1 u2 u3 by (auto simp: ev)
qed

subsection \<open>The run of the worker\<close>

lemma run_outcome_step:
  "\<exists>w'. run_outcome grp (outcome run) iv w
         = (Inr (if run_failed run then AgentError else AgentSuccess, iv), w') \<and>
        run_step jid w w' []"
proof (cases "outcome run")
  case Threw
  then show ?thesis
    by (simp add: run_outcome_def io_defs run_failed_def run_step_def cursor_frame_def
                  is_send_def is_run_def)
next
  case (Returned fin)
  obtain w1 where s: "store_session (folder grp) (newSessionId fin) w = (Inr (), w1)"
    and f1: "run_step jid w w1 []"
    using store_session_step by blast
  show ?thesis
  proof (cases "status fin = StatusError")
    case True
    have "run_step jid w (w1\<lparr>trace := trace w1 @ [Log Error ''Container agent error'']\<rparr>) ([] @ [])"
      by (rule run_step_trans[OF f1 run_step_emit]) (simp_all add: is_run_def is_send_def)
    then show ?thesis using Returned True s
      by (simp add: run_outcome_def io_defs run_failed_def)
  next
    case False
    then show ?thesis using Returned s f1
      by (simp add: run_outcome_def io_defs run_failed_def)
  qed
qed

lemma runAgent_step:
  "\<exists>iv' w'.
     runAgent env grp p jid iv w =
       (Inr (if run_failed (runContainerAgent env grp
                 \<lparr>prompt = p, sessionId = map_of (sessions w) (folder grp),
                  groupFolder = folder grp, chatJid = jid,
                  isMain = (folder grp = MAIN_GROUP_FOLDER env)\<rparr>)
             then AgentError else AgentSuccess, iv'), w') \<and>
     hadError iv' = (hadError iv \<or> (\<exists>e\<in>set (events (runContainerAgent env grp
                 \<lparr>prompt = p, sessionId = map_of (sessions w) (folder grp),
                  groupFolder = folder grp, chatJid = jid,
                  isMain = (folder grp = MAIN_GROUP_FOLDER env)\<rparr>)). status (snd e) = StatusError)) \<and>
     outputSentToUser iv' = (outputSentToUser iv \<or> (\<exists>e\<in>set (events (runContainerAgent env grp
                 \<lparr>prompt = p, sessionId = map_of (sessions w) (folder grp),
                  groupFolder = folder grp, chatJid = jid,
                  isMain = (folder grp = MAIN_GROUP_FOLDER env)\<rparr>)). visible_text (snd e) \<noteq> [])) \<and>
     run_step jid
       (w\<lparr>trace := trace w @
            [WriteTasksSnapshot (folder grp) (folder grp = MAIN_GROUP_FOLDER env),
             WriteGroupsSnapshot (folder grp) (folder grp = MAIN_GROUP_FOLDER env),
             RunContainerAgent jid p]\<rparr>)
       w'
       (sent_texts (events (runContainerAgent env grp
                 \<lparr>prompt = p, sessionId = map_of (sessions w) (folder grp),
                  groupFolder = folder grp, chatJid = jid,
                  isMain = (folder grp = MAIN_GROUP_FOLDER env)\<rparr>)))"
proof -
  define run where "run = runContainerAgent env grp
                 \<lparr>prompt = p, sessionId = map_of (sessions w) (folder grp),
                  groupFolder = folder grp, chatJid = jid,
                  isMain = (folder grp = MAIN_GROUP_FOLDER env)\<rparr>"
  define w0 where "w0 = w\<lparr>trace := trace w @
            [WriteTasksSnapshot (folder grp) (folder grp = MAIN_GROUP_FOLDER env),
             WriteGroupsSnapshot (folder grp) (folder grp = MAIN_GROUP_FOLDER env),
             RunContainerAgent jid p]\<rparr>"
  obtain iv1 w1 where s: "stream_events env grp jid (events run) iv w0 = (Inr iv1, w1)"
    and h1: "hadError iv1 = (hadError iv \<or> (\<exists>e\<in>set (events run). status (snd e) = StatusError))"
    and u1: "outputSentToUser iv1 = (outputSentToUser iv \<or> (\<exists>e\<in>set (events run). visible_text (snd e) \<noteq> []))"
    and f1: "run_step jid w0 w1 (sent_texts (events run))"
    using stream_events_step by blast
  obtain iv2 w2 where e: "elapse jid (final_delay run) iv1 w1 = (Inr iv2, w2)"
    and h2: "hadError iv2 = hadError iv1" and u2: "outputSentToUser iv2 = outputSentToUser iv1"
    and f2: "run_step jid w1 w2 []"
    using elapse_step by blast
  obtain w3 where fin: "run_outcome grp (outcome run) iv2 w2
         = (Inr (if run_failed run then AgentError else AgentSuccess, iv2), w3)"
    and f3: "run_step jid w2 w3 []"
    using run_outcome_step by blast
  have "runAgent env grp p jid iv w = (Inr (if run_failed run then AgentError else AgentSuccess, iv2), w3)"
    unfolding runAgent_def Let_def
    by (simp add: io_bind_def io_get_def emit_def run_def[symmetric] w0_def[symmetric] s e fin)
  moreover have "run_step jid w0 w3 (sent_texts (events run))"
    using run_step_trans[OF run_step_trans[OF f1 f2] f3] by simp
  ultimately show ?thesis
    unfolding run_def[symmetric] w0_def[symmetric] using h1 h2 u1 u2 by auto
qed

subsection \<open>Saving the state and settling an invocation\<close>

lemma cursorOf_update: "cursorOf (AList.update k v m) k = v"
  by (simp add: cursorOf_def update_conv')

lemma cursorOf_update_other: "k' \<noteq> k \<Longrightarrow> cursorOf (AList.update k v m) k' = cursorOf m k'"
  by (simp add: cursorOf_def update_conv')

lemma saveState_ok:
  "store_faults w = [] \<Longrightarrow>
   saveState env w =
     (Inr (),
      w\<lparr>router_state :=
          AList.update ''last_agent_timestamp'' (JSON_stringify env (lastAgentTimestamp w))
            (AList.update ''last_timestamp'' (lastTimestamp w) (router_state w)),
        store_faults := [],
        trace := trace w @
          [StoreWrite ''last_timestamp'' (lastTimestamp w),
           StoreWrite ''last_agent_timestamp'' (JSON_stringify env (lastAgentTimestamp w))]\<rparr>)"
  by (simp add: saveState_def setRouterState_def io_bind_def)

lemma saveState_success:
  "saveState env w = (Inr u, w') \<Longrightarrow>
   w' = w\<lparr>router_state :=
            AList.update ''last_agent_timestamp'' (JSON_stringify env (lastAgentTimestamp w))
              (AList.update ''last_timestamp'' (lastTimestamp w) (router_state w)),
          store_faults := tl (tl (store_faults w)),
          trace := trace w @
            [StoreWrite ''last_timestamp'' (lastTimestamp w),
             StoreWrite ''last_agent_timestamp'' (JSON_stringify env (lastAgentTimestamp w))]\<rparr>"
  by (auto simp: saveState_def setRouterState_def io_bind_def split: list.splits bool.splits)

lemma saveState_failure:
  "saveState env w = (Inl e, w') \<Longrightarrow>
   e = StoreUnavailable \<and> lastTimestamp w' = lastTimestamp w \<and>
   lastAgentTimestamp w' = lastAgentTimestamp w \<and>
   (\<exists>new. trace w' = trace w @ new \<and> \<not> list_ex is_run new \<and> \<not> list_ex is_send new)"
  by (auto simp: saveState_def setRouterState_def io_bind_def is_run_def is_send_def
           split: list.splits bool.splits)

lemma settle_ok:
  "store_faults w = [] \<Longrightarrow>
   settle env jid prev (st, iv) w =
     (if st = AgentError \<or> hadError iv then
        if outputSentToUser iv then
          (Inr True,
           w\<lparr>trace := trace w @
               [ChanSetTyping jid False,
                Log Warn ''Agent error after output was sent, skipping cursor rollback to prevent duplicates'']\<rparr>)
        else
          (Inr False,
           w\<lparr>lastAgentTimestamp := AList.update jid prev (lastAgentTimestamp w),
             router_state :=
               AList.update ''last_agent_timestamp''
                 (JSON_stringify env (AList.update jid prev (lastAgentTimestamp w)))
                 (AList.update ''last_timestamp'' (lastTimestamp w) (router_state w)),
             store_faults := [],
             trace := trace w @
               [ChanSetTyping jid False,
                StoreWrite ''last_timestamp'' (lastTimestamp w),
                StoreWrite ''last_agent_timestamp''
                  (JSON_stringify env (AList.update jid prev (lastAgentTimestamp w))),
                Log Warn ''Agent error, rolled back message cursor for retry'']\<rparr>)
      else (Inr True, w\<lparr>trace := trace w @ [ChanSetTyping jid False]\<rparr>))"
  by (simp add: settle_def io_bind_def emit_def io_return_def set_cursor_def io_modify_def
                saveState_ok)

lemma settle_trace:
  "\<exists>r w' new. settle env jid prev x w = (r, w') \<and> trace w' = trace w @ new \<and>
     \<not> list_ex is_run new \<and> \<not> list_ex is_send new"
proof -
  obtain st iv where x: "x = (st, iv)" by (cases x)
  define w1 where "w1 = w\<lparr>trace := trace w @ [ChanSetTyping jid False]\<rparr>"
  define w2 where "w2 = w1\<lparr>lastAgentTimestamp := AList.update jid prev (lastAgentTimestamp w1)\<rparr>"
  show ?thesis
  proof (cases "(st = AgentError \<or> hadError iv) \<and> \<not> outputSentToUser iv")
    case False
    then show ?thesis
      by (auto simp: x settle_def io_bind_def emit_def io_return_def is_run_def is_send_def)
  next
    case True
    obtain r w3 where s: "saveState env w2 = (r, w3)" by (cases "saveState env w2")
    show ?thesis
    proof (cases r)
      case (Inl e)
      then obtain new where "trace w3 = trace w2 @ new" "\<not> list_ex is_run new" "\<not> list_ex is_send new"
        using saveState_failure s by blast
      then show ?thesis using True Inl s
        by (auto simp: x settle_def io_bind_def emit_def io_return_def set_cursor_def io_modify_def
                       w1_def[symmetric] w2_def[symmetric])
           (auto simp: w1_def w2_def is_run_def is_send_def)
    next
      case (Inr u)
      then have "trace w3 = trace w2 @
            [StoreWrite ''last_timestamp'' (lastTimestamp w2),
             StoreWrite ''last_agent_timestamp'' (JSON_stringify env (lastAgentTimestamp w2))]"
        using saveState_success s by fastforce
      then show ?thesis using True Inr s
        by (auto simp: x settle_def io_bind_def emit_def io_return_def set_cursor_def io_modify_def
                       w1_def[symmetric] w2_def[symmetric])
           (auto simp: w1_def w2_def is_run_def is_send_def)
    qed
  qed
qed

lemma processGroupMessages_dispatch:
  assumes "map_of (registeredGroups w) jid = Some grp"
    and "getMessagesSince env jid (cursorOf (lastAgentTimestamp w) jid) (ASSISTANT_NAME env) = Inr missed"
    and "missed \<noteq> []"
    and "\<not> (needsTrigger env grp \<and> \<not> hasTrigger env missed)"
  shows "processGroupMessages env jid w = dispatch env grp jid missed w"
  using assms by (auto simp: processGroupMessages_def io_defs)

lemma dispatch_unfold:
  "missed \<noteq> [] \<Longrightarrow>
   dispatch env grp jid missed w =
     io_bind (saveState env) (\<lambda>_.
     io_bind (emit (Log Info ''Processing messages'')) (\<lambda>_.
     io_bind (emit (ChanSetTyping jid True)) (\<lambda>_.
     io_bind (runAgent env grp (formatMessages env missed) jid
                 \<lparr>idleTimer = None, hadError = False, outputSentToUser = False\<rparr>)
        (settle env jid (cursorOf (lastAgentTimestamp w) jid)))))
       (w\<lparr>lastAgentTimestamp := AList.update jid (timestamp (last missed)) (lastAgentTimestamp w)\<rparr>)"
  by (simp add: dispatch_def Let_def io_bind_def io_get_def last_timestamp_def io_return_def
                set_cursor_def io_modify_def)

subsection \<open>A whole invocation\<close>

lemma invocation_ok:
  assumes reg: "map_of (registeredGroups w) jid = Some grp"
    and backlog: "getMessagesSince env jid (cursorOf (lastAgentTimestamp w) jid) (ASSISTANT_NAME env) = Inr missed"
    and nonempty: "missed \<noteq> []"
    and trig: "\<not> (needsTrigger env grp \<and> \<not> hasTrigger env missed)"
    and healthy: "store_faults w = []"
  shows "\<exists>w'. processGroupMessages env jid w =
           (Inr (\<not> invocation_failed (worker_run env grp jid missed w) \<or>
                 output_delivered (worker_run env grp jid missed w)), w') \<and>
         lastAgentTimestamp w' =
           (if invocation_failed (worker_run env grp jid missed w) \<and>
               \<not> output_delivered (worker_run env grp jid missed w)
            then AList.update jid (cursorOf (lastAgentTimestamp w) jid)
                   (AList.update jid (timestamp (last missed)) (lastAgentTimestamp w))
            else AList.update jid (timestamp (last missed)) (lastAgentTimestamp w)) \<and>
         map_of (router_state w') ''last_agent_timestamp'' =
           Some (JSON_stringify env (lastAgentTimestamp w')) \<and>
         (\<exists>new. trace w' = trace w @ new \<and>
            filter is_send new =
              map (ChanSendMessage jid) (sent_texts (events (worker_run env grp jid missed w))))"
proof -
  define run where "run = worker_run env grp jid missed w"
  define adv where "adv = AList.update jid (timestamp (last missed)) (lastAgentTimestamp w)"
  define w1 where "w1 = w\<lparr>lastAgentTimestamp := adv\<rparr>"
  define w2 where "w2 = w1\<lparr>router_state :=
          AList.update ''last_agent_timestamp'' (JSON_stringify env adv)
            (AList.update ''last_timestamp'' (lastTimestamp w) (router_state w)),
        store_faults := [],
        trace := trace w @
          [StoreWrite ''last_timestamp'' (lastTimestamp w),
           StoreWrite ''last_agent_timestamp'' (JSON_stringify env adv)]\<rparr>"
  define w3 where "w3 = w2\<lparr>trace := trace w2 @ [Log Info ''Processing messages'', ChanSetTyping jid True]\<rparr>"
  define w3' where "w3' = w3\<lparr>trace := trace w3 @
            [WriteTasksSnapshot (folder grp) (folder grp = MAIN_GROUP_FOLDER env),
             WriteGroupsSnapshot (folder grp) (folder grp = MAIN_GROUP_FOLDER env),
             RunContainerAgent jid (formatMessages env missed)]\<rparr>"
  have save: "saveState env w1 = (Inr (), w2)"
    using healthy by (simp add: saveState_ok w1_def w2_def)
  have run3: "runContainerAgent env grp
                 \<lparr>prompt = formatMessages env missed, sessionId = map_of (sessions w3) (folder grp),
                  groupFolder = folder grp, chatJid = jid,
                  isMain = (folder grp = MAIN_GROUP_FOLDER env)\<rparr> = run"
    by (simp add: run_def worker_run_def w3_def w2_def w1_def)
  obtain iv' w4 where
    agent: "runAgent env grp (formatMessages env missed) jid
              \<lparr>idleTimer = None, hadError = False, outputSentToUser = False\<rparr> w3
            = (Inr (if run_failed run then AgentError else AgentSuccess, iv'), w4)"
    and had: "hadError iv' = (\<exists>e\<in>set (events run). status (snd e) = StatusError)"
    and sent: "outputSentToUser iv' = (\<exists>e\<in>set (events run). visible_text (snd e) \<noteq> [])"
    and step: "run_step jid w3' w4 (sent_texts (events run))"
    using runAgent_step[of env grp "formatMessages env missed" jid
            "\<lparr>idleTimer = None, hadError = False, outputSentToUser = False\<rparr>" w3]
    unfolding run3 w3'_def by auto
  from step obtain new where
    frame: "cursor_frame w3' w4"
    and tr: "trace w4 = trace w3' @ new"
    and sends: "filter is_send new = map (ChanSendMessage jid) (sent_texts (events run))"
    by (auto simp: run_step_def)
  have healthy4: "store_faults w4 = []"
    using frame by (simp add: cursor_frame_def w3'_def w3_def w2_def)
  have cur4: "lastAgentTimestamp w4 = adv"
    using frame by (simp add: cursor_frame_def w3'_def w3_def w2_def w1_def)
  have rs4: "map_of (router_state w4) ''last_agent_timestamp'' = Some (JSON_stringify env adv)"
    using frame by (simp add: cursor_frame_def w3'_def w3_def w2_def update_conv')
  have tr4: "trace w4 = trace w @
          [StoreWrite ''last_timestamp'' (lastTimestamp w),
           StoreWrite ''last_agent_timestamp'' (JSON_stringify env adv),
           Log Info ''Processing messages'', ChanSetTyping jid True,
           WriteTasksSnapshot (folder grp) (folder grp = MAIN_GROUP_FOLDER env),
           WriteGroupsSnapshot (folder grp) (folder grp = MAIN_GROUP_FOLDER env),
           RunContainerAgent jid (formatMessages env missed)] @ new"
    using tr by (simp add: w3'_def w3_def w2_def)
  have failed: "invocation_failed run = (run_failed run \<or> hadError iv')"
    by (simp add: invocation_failed_def had list_ex_iff)
  have delivered: "output_delivered run = outputSentToUser iv'"
    by (simp add: output_delivered_def sent list_ex_iff)
  have pgm: "processGroupMessages env jid w =
      settle env jid (cursorOf (lastAgentTimestamp w) jid)
        (if run_failed run then AgentError else AgentSuccess, iv') w4"
    by (simp add: processGroupMessages_dispatch[OF reg backlog nonempty trig]
                  dispatch_unfold[OF nonempty] io_bind_def emit_def save agent
                  adv_def[symmetric] w1_def[symmetric] w3_def[symmetric])
  show ?thesis
    unfolding run_def[symmetric] adv_def[symmetric] pgm settle_ok[OF healthy4] failed delivered
    using cur4 rs4 tr4 sends
    by (auto simp: is_send_def update_conv')
qed

lemma dispatch_trace:
  assumes nonempty: "missed \<noteq> []"
    and res: "dispatch env grp jid missed w = (r, w')"
  shows "(r = Inl StoreUnavailable \<and>
          (\<exists>new. trace w' = trace w @ new \<and> \<not> list_ex is_run new \<and> \<not> list_ex is_send new)) \<or>
         (\<exists>post. trace w' = trace w @
            [StoreWrite ''last_timestamp'' (lastTimestamp w),
             StoreWrite ''last_agent_timestamp''
               (JSON_stringify env
                  (AList.update jid (timestamp (last missed)) (lastAgentTimestamp w))),
             Log Info ''Processing messages'',
             ChanSetTyping jid True,
             WriteTasksSnapshot (folder grp) (folder grp = MAIN_GROUP_FOLDER env),
             WriteGroupsSnapshot (folder grp) (folder grp = MAIN_GROUP_FOLDER env),
             RunContainerAgent jid (formatMessages env missed)] @ post \<and>
            \<not> list_ex is_run post)"
proof -
  define adv where "adv = AList.update jid (timestamp (last missed)) (lastAgentTimestamp w)"
  define w1 where "w1 = w\<lparr>lastAgentTimestamp := adv\<rparr>"
  obtain r2 w2 where save: "saveState env w1 = (r2, w2)" by (cases "saveState env w1")
  show ?thesis
  proof (cases r2)
    case (Inl e)
    have "dispatch env grp jid missed w = (Inl e, w2)"
      using save Inl
      by (simp add: dispatch_unfold[OF nonempty] io_bind_def adv_def[symmetric] w1_def[symmetric])
    then have "r = Inl e" "w' = w2" using res by simp_all
    moreover have "e = StoreUnavailable \<and>
        (\<exists>new. trace w2 = trace w1 @ new \<and> \<not> list_ex is_run new \<and> \<not> list_ex is_send new)"
      using saveState_failure save Inl by blast
    ultimately show ?thesis by (simp add: w1_def)
  next
    case (Inr u)
    define w3 where "w3 = w2\<lparr>trace := trace w2 @ [Log Info ''Processing messages'', ChanSetTyping jid True]\<rparr>"
    define w3' where "w3' = w3\<lparr>trace := trace w3 @
            [WriteTasksSnapshot (folder grp) (folder grp = MAIN_GROUP_FOLDER env),
             WriteGroupsSnapshot (folder grp) (folder grp = MAIN_GROUP_FOLDER env),
             RunContainerAgent jid (formatMessages env missed)]\<rparr>"
    have tr2: "trace w2 = trace w @
            [StoreWrite ''last_timestamp'' (lastTimestamp w),
             StoreWrite ''last_agent_timestamp'' (JSON_stringify env adv)]"
      using saveState_success[of env w1 u w2] save Inr by (simp add: w1_def)
    obtain x w4 where agent: "runAgent env grp (formatMessages env missed) jid
              \<lparr>idleTimer = None, hadError = False, outputSentToUser = False\<rparr> w3 = (Inr x, w4)"
      and step: "run_step jid w3' w4
         (sent_texts (events (runContainerAgent env grp
                 \<lparr>prompt = formatMessages env missed, sessionId = map_of (sessions w3) (folder grp),
                  groupFolder = folder grp, chatJid = jid,
                  isMain = (folder grp = MAIN_GROUP_FOLDER env)\<rparr>)))"
      using runAgent_step[of env grp "formatMessages env missed" jid
            "\<lparr>idleTimer = None, hadError = False, outputSentToUser = False\<rparr>" w3]
      unfolding w3'_def by blast
    from step obtain new1 where tr4: "trace w4 = trace w3' @ new1" and nr1: "\<not> list_ex is_run new1"
      by (auto simp: run_step_def)
    obtain r5 w5 new2 where fin: "settle env jid (cursorOf (lastAgentTimestamp w) jid) x w4 = (r5, w5)"
      and tr5: "trace w5 = trace w4 @ new2" and nr2: "\<not> list_ex is_run new2"
      using settle_trace by blast
    have "dispatch env grp jid missed w = (r5, w5)"
      using save Inr
      by (simp add: dispatch_unfold[OF nonempty] io_bind_def emit_def adv_def[symmetric]
                    w1_def[symmetric] w3_def[symmetric] agent fin)
    then have "w' = w5" using res by simp
    moreover have "trace w5 = trace w @
            [StoreWrite ''last_timestamp'' (lastTimestamp w),
             StoreWrite ''last_agent_timestamp'' (JSON_stringify env adv),
             Log Info ''Processing messages'',
             ChanSetTyping jid True,
             WriteTasksSnapshot (folder grp) (folder grp = MAIN_GROUP_FOLDER env),
             WriteGroupsSnapshot (folder grp) (folder grp = MAIN_GROUP_FOLDER env),
             RunContainerAgent jid (formatMessages env missed)] @ (new1 @ new2)"
      by (simp add: tr5 tr4 w3'_def w3_def tr2)
    moreover have "\<not> list_ex is_run (new1 @ new2)"
      using nr1 nr2 by simp
    ultimately show ?thesis unfolding adv_def by blast
  qed
qed

subsection \<open>The example group\<close>

lemma family_reg:
  "map_of (registeredGroups family_world) ''family@g.us'' = Some (example_group ''family'' None)"
  by (simp add: family_world_def example_world_def)

lemma family_backlog:
  "getMessagesSince (example_env family_table active run)
       ''family@g.us'' (cursorOf (lastAgentTimestamp family_world) ''family@g.us'')
       (ASSISTANT_NAME (example_env family_table active run)) = Inr family_table"
  by (simp add: example_env_def table_getMessagesSince_def family_world_def cursorOf_def
                family_table_def example_message_def)

lemma family_nonempty: "family_table \<noteq> []"
  by (simp add: family_table_def)

lemma family_trig:
  "\<not> (needsTrigger (example_env family_table active run) (example_group ''family'' None) \<and>
      \<not> hasTrigger (example_env family_table active run) family_table)"
  by (simp add: hasTrigger_def example_env_def family_table_def example_message_def trim_def js_white_space_def utf8_length_def)

lemma family_healthy: "store_faults family_world = []"
  by (simp add: family_world_def example_world_def)

lemma family_run:
  "worker_run (example_env family_table active run) (example_group ''family'' None)
     ''family@g.us'' family_table family_world = run"
  by (simp add: worker_run_def example_env_def)

lemma family_last: "timestamp (last family_table) = ''t2''"
  by (simp add: family_table_def example_message_def)

lemma family_cursor: "cursorOf (lastAgentTimestamp family_world) ''family@g.us'' = ''t0''"
  by (simp add: family_world_def cursorOf_def)

lemma internal_only_visible:
  "visible_text (example_output StatusSuccess (StrResult internal_only_text)) = []"
  by (simp add: example_output_def visible_text_def raw_text_def internal_only_text_def
                trim_def js_white_space_def utf8_length_def)

subsection \<open>An invocation with a store that may fail\<close>

lemma saveState_failure_store:
  "saveState env w = (Inl e, w') \<Longrightarrow>
   map_of (router_state w') ''last_agent_timestamp'' = map_of (router_state w) ''last_agent_timestamp''"
  by (auto simp: saveState_def setRouterState_def io_bind_def update_conv'
           split: list.splits bool.splits)

lemma settle_keep:
  assumes "\<not> ((st = AgentError \<or> hadError iv) \<and> \<not> outputSentToUser iv)"
    and "settle env jid prev (st, iv) w = (r, w')"
  shows "r = Inr True \<and> lastAgentTimestamp w' = lastAgentTimestamp w \<and>
         router_state w' = router_state w"
  using assms by (auto simp: settle_def io_bind_def emit_def io_return_def split: if_splits)

lemma settle_rollback:
  assumes fail: "(st = AgentError \<or> hadError iv) \<and> \<not> outputSentToUser iv"
    and res: "settle env jid prev (st, iv) w = (r, w')"
  shows "lastAgentTimestamp w' = AList.update jid prev (lastAgentTimestamp w) \<and>
         ((r = Inr False \<and>
           map_of (router_state w') ''last_agent_timestamp''
             = Some (JSON_stringify env (lastAgentTimestamp w'))) \<or>
          (r = Inl StoreUnavailable \<and>
           map_of (router_state w') ''last_agent_timestamp''
             = map_of (router_state w) ''last_agent_timestamp''))"
proof -
  define w2 where "w2 = w\<lparr>trace := trace w @ [ChanSetTyping jid False],
                          lastAgentTimestamp := AList.update jid prev (lastAgentTimestamp w)\<rparr>"
  obtain r3 w3 where save: "saveState env w2 = (r3, w3)" by (cases "saveState env w2")
  have unfolded: "settle env jid prev (st, iv) w =
      io_bind (saveState env) (\<lambda>_.
        io_bind (emit (Log Warn ''Agent error, rolled back message cursor for retry'')) (\<lambda>_.
        io_return False)) w2"
  proof -
    have step: "\<And>k. io_bind (emit (ChanSetTyping jid False))
                 (\<lambda>_. io_bind (set_cursor jid prev) k) w = k () w2"
      by (simp add: io_bind_def emit_def set_cursor_def io_modify_def w2_def)
    from fail show ?thesis
      unfolding settle_def by (simp add: step)
  qed
  show ?thesis
  proof (cases r3)
    case (Inl e)
    then have "settle env jid prev (st, iv) w = (Inl e, w3)"
      by (simp add: unfolded io_bind_def save)
    with res have r: "r = Inl e" and w': "w' = w3" by simp_all
    from saveState_failure[of env w2 e w3] save Inl
    have e: "e = StoreUnavailable" and cur: "lastAgentTimestamp w3 = lastAgentTimestamp w2"
      by simp_all
    from saveState_failure_store[of env w2 e w3] save Inl
    have "map_of (router_state w3) ''last_agent_timestamp''
            = map_of (router_state w2) ''last_agent_timestamp''"
      by simp
    then show ?thesis
      by (simp add: r w' e cur w2_def)
  next
    case (Inr u)
    from saveState_success[of env w2 u w3] save Inr
    have w3: "w3 = w2\<lparr>router_state :=
            AList.update ''last_agent_timestamp'' (JSON_stringify env (lastAgentTimestamp w2))
              (AList.update ''last_timestamp'' (lastTimestamp w2) (router_state w2)),
          store_faults := tl (tl (store_faults w2)),
          trace := trace w2 @
            [StoreWrite ''last_timestamp'' (lastTimestamp w2),
             StoreWrite ''last_agent_timestamp'' (JSON_stringify env (lastAgentTimestamp w2))]\<rparr>"
      by simp
    have "settle env jid prev (st, iv) w =
        (Inr False, w3\<lparr>trace := trace w3 @ [Log Warn ''Agent error, rolled back message cursor for retry'']\<rparr>)"
      using Inr by (simp add: unfolded io_bind_def save emit_def io_return_def)
    with res have r: "r = Inr False"
      and w': "w' = w3\<lparr>trace := trace w3 @ [Log Warn ''Agent error, rolled back message cursor for retry'']\<rparr>"
      by simp_all
    show ?thesis
      by (simp add: r w' w3 w2_def update_conv')
  qed
qed

lemma invocation_general:
  assumes reg: "map_of (registeredGroups w) jid = Some grp"
    and backlog: "getMessagesSince env jid (cursorOf (lastAgentTimestamp w) jid) (ASSISTANT_NAME env) = Inr missed"
    and nonempty: "missed \<noteq> []"
    and trig: "\<not> (needsTrigger env grp \<and> \<not> hasTrigger env missed)"
    and res: "processGroupMessages env jid w = (r, w')"
    and started: "list_ex is_run (drop (length (trace w)) (trace w'))"
  shows "(\<exists>new. trace w' = trace w @ new \<and>
            filter is_send new =
              map (ChanSendMessage jid) (sent_texts (events (worker_run env grp jid missed w)))) \<and>
         (if invocation_failed (worker_run env grp jid missed w) \<and>
             \<not> output_delivered (worker_run env grp jid missed w)
          then lastAgentTimestamp w' =
                 AList.update jid (cursorOf (lastAgentTimestamp w) jid)
                   (AList.update jid (timestamp (last missed)) (lastAgentTimestamp w)) \<and>
               ((r = Inr False \<and>
                 map_of (router_state w') ''last_agent_timestamp''
                   = Some (JSON_stringify env (lastAgentTimestamp w'))) \<or>
                (r = Inl StoreUnavailable \<and>
                 map_of (router_state w') ''last_agent_timestamp''
                   = Some (JSON_stringify env
                       (AList.update jid (timestamp (last missed)) (lastAgentTimestamp w)))))
          else r = Inr True \<and>
               lastAgentTimestamp w' =
                 AList.update jid (timestamp (last missed)) (lastAgentTimestamp w) \<and>
               map_of (router_state w') ''last_agent_timestamp''
                 = Some (JSON_stringify env (lastAgentTimestamp w')))"
proof -
  define run where "run = worker_run env grp jid missed w"
  define adv where "adv = AList.update jid (timestamp (last missed)) (lastAgentTimestamp w)"
  define prev where "prev = cursorOf (lastAgentTimestamp w) jid"
  define w1 where "w1 = w\<lparr>lastAgentTimestamp := adv\<rparr>"
  obtain r2 w2 where save: "saveState env w1 = (r2, w2)" by (cases "saveState env w1")
  have pgm1: "processGroupMessages env jid w =
     io_bind (saveState env) (\<lambda>_.
     io_bind (emit (Log Info ''Processing messages'')) (\<lambda>_.
     io_bind (emit (ChanSetTyping jid True)) (\<lambda>_.
     io_bind (runAgent env grp (formatMessages env missed) jid
                 \<lparr>idleTimer = None, hadError = False, outputSentToUser = False\<rparr>)
        (settle env jid prev)))) w1"
    by (simp add: processGroupMessages_dispatch[OF reg backlog nonempty trig]
                  dispatch_unfold[OF nonempty] adv_def w1_def prev_def)
  have ok: "\<exists>u. r2 = Inr u"
  proof (cases r2)
    case (Inl e)
    then have "processGroupMessages env jid w = (Inl e, w2)"
      by (simp add: pgm1 io_bind_def save)
    with res have "w' = w2" by simp
    moreover from saveState_failure[of env w1 e w2] save Inl
    obtain new where "trace w2 = trace w1 @ new" and "\<not> list_ex is_run new"
      by auto
    ultimately have "\<not> list_ex is_run (drop (length (trace w)) (trace w'))"
      by (simp add: w1_def)
    with started show ?thesis by simp
  qed simp
  then obtain u where r2: "r2 = Inr u" by blast
  from saveState_success[of env w1 u w2] save r2
  have w2: "w2 = w1\<lparr>router_state :=
          AList.update ''last_agent_timestamp'' (JSON_stringify env adv)
            (AList.update ''last_timestamp'' (lastTimestamp w) (router_state w)),
        store_faults := tl (tl (store_faults w)),
        trace := trace w @
          [StoreWrite ''last_timestamp'' (lastTimestamp w),
           StoreWrite ''last_agent_timestamp'' (JSON_stringify env adv)]\<rparr>"
    by (simp add: w1_def)
  define w3 where "w3 = w2\<lparr>trace := trace w2 @ [Log Info ''Processing messages'', ChanSetTyping jid True]\<rparr>"
  define w3' where "w3' = w3\<lparr>trace := trace w3 @
            [WriteTasksSnapshot (folder grp) (folder grp = MAIN_GROUP_FOLDER env),
             WriteGroupsSnapshot (folder grp) (folder grp = MAIN_GROUP_FOLDER env),
             RunContainerAgent jid (formatMessages env missed)]\<rparr>"
  have run3: "runContainerAgent env grp
                 \<lparr>prompt = formatMessages env missed, sessionId = map_of (sessions w3) (folder grp),
                  groupFolder = folder grp, chatJid = jid,
                  isMain = (folder grp = MAIN_GROUP_FOLDER env)\<rparr> = run"
    by (simp add: run_def worker_run_def w3_def w2 w1_def)
  obtain iv' w4 where
    agent: "runAgent env grp (formatMessages env missed) jid
              \<lparr>idleTimer = None, hadError = False, outputSentToUser = False\<rparr> w3
            = (Inr (if run_failed run then AgentError else AgentSuccess, iv'), w4)"
    and had: "hadError iv' = (\<exists>e\<in>set (events run). status (snd e) = StatusError)"
    and sent: "outputSentToUser iv' = (\<exists>e\<in>set (events run). visible_text (snd e) \<noteq> [])"
    and step: "run_step jid w3' w4 (sent_texts (events run))"
    using runAgent_step[of env grp "formatMessages env missed" jid
            "\<lparr>idleTimer = None, hadError = False, outputSentToUser = False\<rparr>" w3]
    unfolding run3 w3'_def by auto
  from step obtain new where
    frame: "cursor_frame w3' w4"
    and tr: "trace w4 = trace w3' @ new"
    and sends: "filter is_send new = map (ChanSendMessage jid) (sent_texts (events run))"
    by (auto simp: run_step_def)
  have cur4: "lastAgentTimestamp w4 = adv"
    using frame by (simp add: cursor_frame_def w3'_def w3_def w2 w1_def)
  have rs4: "map_of (router_state w4) ''last_agent_timestamp'' = Some (JSON_stringify env adv)"
    using frame by (simp add: cursor_frame_def w3'_def w3_def w2 update_conv')
  have tr4: "trace w4 = trace w @
          ([StoreWrite ''last_timestamp'' (lastTimestamp w),
           StoreWrite ''last_agent_timestamp'' (JSON_stringify env adv),
           Log Info ''Processing messages'', ChanSetTyping jid True,
           WriteTasksSnapshot (folder grp) (folder grp = MAIN_GROUP_FOLDER env),
           WriteGroupsSnapshot (folder grp) (folder grp = MAIN_GROUP_FOLDER env),
           RunContainerAgent jid (formatMessages env missed)] @ new)"
    using tr by (simp add: w3'_def w3_def w2)
  have failed: "invocation_failed run = (run_failed run \<or> hadError iv')"
    by (simp add: invocation_failed_def had list_ex_iff)
  have delivered: "output_delivered run = outputSentToUser iv'"
    by (simp add: output_delivered_def sent list_ex_iff)
  define st where "st = (if run_failed run then AgentError else AgentSuccess)"
  have bad: "(invocation_failed run \<and> \<not> output_delivered run) =
             ((st = AgentError \<or> hadError iv') \<and> \<not> outputSentToUser iv')"
    by (simp add: failed delivered st_def)
  have pgm: "processGroupMessages env jid w = settle env jid prev (st, iv') w4"
    by (simp add: pgm1 io_bind_def emit_def save r2 w3_def[symmetric] agent st_def)
  with res have fin: "settle env jid prev (st, iv') w4 = (r, w')" by simp
  obtain r5 w5 new2 where "settle env jid prev (st, iv') w4 = (r5, w5)"
    and "trace w5 = trace w4 @ new2" and "\<not> list_ex is_send new2"
    using settle_trace[of env jid prev "(st, iv')" w4] by (elim exE conjE)
  with fin have tr5: "trace w' = trace w4 @ new2" and ns: "\<not> list_ex is_send new2"
    by simp_all
  have nosend: "filter is_send new2 = []"
    using ns by (simp add: filter_empty_conv list_ex_iff)
  have trace: "\<exists>new'. trace w' = trace w @ new' \<and>
            filter is_send new' = map (ChanSendMessage jid) (sent_texts (events run))"
  proof (intro exI conjI)
    show "trace w' = trace w @ (([StoreWrite ''last_timestamp'' (lastTimestamp w),
           StoreWrite ''last_agent_timestamp'' (JSON_stringify env adv),
           Log Info ''Processing messages'', ChanSetTyping jid True,
           WriteTasksSnapshot (folder grp) (folder grp = MAIN_GROUP_FOLDER env),
           WriteGroupsSnapshot (folder grp) (folder grp = MAIN_GROUP_FOLDER env),
           RunContainerAgent jid (formatMessages env missed)] @ new) @ new2)"
      by (simp add: tr5 tr4)
    show "filter is_send (([StoreWrite ''last_timestamp'' (lastTimestamp w),
           StoreWrite ''last_agent_timestamp'' (JSON_stringify env adv),
           Log Info ''Processing messages'', ChanSetTyping jid True,
           WriteTasksSnapshot (folder grp) (folder grp = MAIN_GROUP_FOLDER env),
           WriteGroupsSnapshot (folder grp) (folder grp = MAIN_GROUP_FOLDER env),
           RunContainerAgent jid (formatMessages env missed)] @ new) @ new2)
          = map (ChanSendMessage jid) (sent_texts (events run))"
      by (simp add: sends nosend is_send_def)
  qed
  show ?thesis
  proof (cases "invocation_failed run \<and> \<not> output_delivered run")
    case True
    with bad have "(st = AgentError \<or> hadError iv') \<and> \<not> outputSentToUser iv'" by simp
    from settle_rollback[OF this fin] True trace show ?thesis
      unfolding run_def[symmetric] adv_def[symmetric] prev_def[symmetric]
      by (auto simp: cur4 rs4)
  next
    case False
    with bad have "\<not> ((st = AgentError \<or> hadError iv') \<and> \<not> outputSentToUser iv')" by simp
    from settle_keep[OF this fin] False trace show ?thesis
      unfolding run_def[symmetric] adv_def[symmetric] prev_def[symmetric]
      by (auto simp: cur4 rs4)
  qed
qed

lemma family_started:
  "list_ex is_run (drop (length (trace family_world))
     (trace (snd (processGroupMessages (example_env family_table [] run) ''family@g.us''
                    family_world))))"
proof -
  let ?E = "example_env family_table [] run"
  obtain v w' where pgm: "processGroupMessages ?E ''family@g.us'' family_world = (Inr v, w')"
    using invocation_ok[OF family_reg family_backlog family_nonempty family_trig family_healthy,
                        of "[]" run]
    by blast
  have "dispatch ?E (example_group ''family'' None) ''family@g.us'' family_table family_world
          = (Inr v, w')"
    using processGroupMessages_dispatch[OF family_reg family_backlog family_nonempty family_trig,
                                        of "[]" run] pgm
    by simp
  from dispatch_trace[OF family_nonempty this] obtain post where
    "trace w' = trace family_world @
       [StoreWrite ''last_timestamp'' (lastTimestamp family_world),
        StoreWrite ''last_agent_timestamp''
          (JSON_stringify ?E
             (AList.update ''family@g.us'' (timestamp (last family_table))
                (lastAgentTimestamp family_world))),
        Log Info ''Processing messages'',
        ChanSetTyping ''family@g.us'' True,
        WriteTasksSnapshot (folder (example_group ''family'' None))
          (folder (example_group ''family'' None) = MAIN_GROUP_FOLDER ?E),
        WriteGroupsSnapshot (folder (example_group ''family'' None))
          (folder (example_group ''family'' None) = MAIN_GROUP_FOLDER ?E),
        RunContainerAgent ''family@g.us'' (formatMessages ?E family_table)] @ post"
    by auto
  then show ?thesis
    by (simp add: pgm is_run_def)
qed

lemma family_returns:
  "fst (processGroupMessages (example_env family_table [] run) ''family@g.us'' family_world) =
     Inr (\<not> invocation_failed run \<or> output_delivered run)"
  using invocation_ok[OF family_reg family_backlog family_nonempty family_trig family_healthy,
                      of "[]" run]
  by (auto simp: family_run)

subsection \<open>The loop over the groups of a batch\<close>

lemma saveState_effects:
  "\<exists>r w' new. saveState env w = (r, w') \<and> lastTimestamp w' = lastTimestamp w \<and>
     lastAgentTimestamp w' = lastAgentTimestamp w \<and> registeredGroups w' = registeredGroups w \<and>
     trace w' = trace w @ new \<and> list_all is_store_write new"
  by (auto simp: saveState_def setRouterState_def io_bind_def is_store_write_def
           split: list.splits bool.splits)

lemma forward_group_skip:
  "\<not> forwardable env w j gm \<Longrightarrow> forward_group env (j, gm) w = (Inr (), w)"
  by (auto simp: forward_group_def forwardable_def io_defs split: option.splits)

lemma forward_group_unfold:
  assumes "map_of (registeredGroups w) j = Some grp"
    and "needsTrigger env grp \<longrightarrow> hasTrigger env gm"
    and "getMessagesSince env j (cursorOf (lastAgentTimestamp w) j) (ASSISTANT_NAME env) = Inr allPending"
  shows "forward_group env (j, gm) w =
     (if queue_sendMessage env j (formatMessages env (if allPending \<noteq> [] then allPending else gm))
      then
        io_bind (last_timestamp (if allPending \<noteq> [] then allPending else gm)) (\<lambda>ts.
        io_bind (set_cursor j ts) (\<lambda>_.
        io_bind (saveState env) (\<lambda>_.
        emit (ChanSetTyping j True))))
          (w\<lparr>trace := trace w @
               [QSendMessage j (formatMessages env (if allPending \<noteq> [] then allPending else gm)) True,
                Log Debug ''Piped messages to active container'']\<rparr>)
      else
        (Inr (), w\<lparr>trace := trace w @
               [QSendMessage j (formatMessages env (if allPending \<noteq> [] then allPending else gm)) False,
                QEnqueueMessageCheck j]\<rparr>))"
  using assms
  by (cases "needsTrigger env grp")
     (simp_all add: forward_group_def io_bind_def io_get_def of_reader_def io_return_def emit_def
                    Let_def)

lemma effect_jid_simps:
  "effect_jid (QSendMessage j t b) = Some j"
  "effect_jid (QEnqueueMessageCheck j) = Some j"
  "effect_jid (ChanSetTyping j c) = Some j"
  "effect_jid (Log l s) = None"
  "effect_jid (StoreWrite k v) = None"
  "effect_jid (Sleep d) = None"
  by (simp_all add: effect_jid_def)

lemma forward_group_stepI:
  assumes "forward_group env (j, gm) w = (r, w')"
    and "lastTimestamp w' = lastTimestamp w" and "registeredGroups w' = registeredGroups w"
    and "\<forall>k. k \<noteq> j \<longrightarrow> map_of (lastAgentTimestamp w') k = map_of (lastAgentTimestamp w) k"
    and "trace w' = trace w @ new"
    and "\<forall>e\<in>set new. effect_jid e = None \<or> effect_jid e = Some j"
    and "\<forall>j' t b. QSendMessage j' t b \<in> set new \<longrightarrow>
        (\<exists>allPending.
           getMessagesSince env j (cursorOf (lastAgentTimestamp w) j) (ASSISTANT_NAME env)
             = Inr allPending \<and>
           t = formatMessages env (if allPending \<noteq> [] then allPending else gm))"
  shows "\<exists>r w' new. forward_group env (j, gm) w = (r, w') \<and>
     lastTimestamp w' = lastTimestamp w \<and> registeredGroups w' = registeredGroups w \<and>
     (\<forall>k. k \<noteq> j \<longrightarrow> map_of (lastAgentTimestamp w') k = map_of (lastAgentTimestamp w) k) \<and>
     trace w' = trace w @ new \<and>
     (\<forall>e\<in>set new. effect_jid e = None \<or> effect_jid e = Some j) \<and>
     (\<forall>j' t b. QSendMessage j' t b \<in> set new \<longrightarrow>
        (\<exists>allPending.
           getMessagesSince env j (cursorOf (lastAgentTimestamp w) j) (ASSISTANT_NAME env)
             = Inr allPending \<and>
           t = formatMessages env (if allPending \<noteq> [] then allPending else gm)))"
  using assms by blast

lemma forward_group_step:
  "\<exists>r w' new. forward_group env (j, gm) w = (r, w') \<and>
     lastTimestamp w' = lastTimestamp w \<and> registeredGroups w' = registeredGroups w \<and>
     (\<forall>k. k \<noteq> j \<longrightarrow> map_of (lastAgentTimestamp w') k = map_of (lastAgentTimestamp w) k) \<and>
     trace w' = trace w @ new \<and>
     (\<forall>e\<in>set new. effect_jid e = None \<or> effect_jid e = Some j) \<and>
     (\<forall>j' t b. QSendMessage j' t b \<in> set new \<longrightarrow>
        (\<exists>allPending.
           getMessagesSince env j (cursorOf (lastAgentTimestamp w) j) (ASSISTANT_NAME env)
             = Inr allPending \<and>
           t = formatMessages env (if allPending \<noteq> [] then allPending else gm)))"
proof (cases "forwardable env w j gm")
  case False
  then have "forward_group env (j, gm) w = (Inr (), w)"
    by (rule forward_group_skip)
  then show ?thesis
    by (rule forward_group_stepI[where new = "[]"]) simp_all
next
  case True
  then obtain grp where reg: "map_of (registeredGroups w) j = Some grp"
    and trig: "needsTrigger env grp \<longrightarrow> hasTrigger env gm"
    by (auto simp: forwardable_def split: option.splits)
  show ?thesis
  proof (cases "getMessagesSince env j (cursorOf (lastAgentTimestamp w) j) (ASSISTANT_NAME env)")
    case (Inl e)
    then have "forward_group env (j, gm) w = (Inl e, w)"
      using reg trig
      by (cases "needsTrigger env grp")
         (simp_all add: forward_group_def io_bind_def io_get_def of_reader_def io_throw_def)
    then show ?thesis
      by (rule forward_group_stepI[where new = "[]"]) simp_all
  next
    case (Inr allPending)
    note allp = this
    define toSend where "toSend = (if allPending \<noteq> [] then allPending else gm)"
    define formatted where "formatted = formatMessages env toSend"
    note unfold = forward_group_unfold[OF reg trig allp, folded toSend_def, folded formatted_def]
    have src: "\<exists>ap. getMessagesSince env j (cursorOf (lastAgentTimestamp w) j) (ASSISTANT_NAME env)
             = Inr ap \<and> formatted = formatMessages env (if ap \<noteq> [] then ap else gm)"
      using allp by (simp add: formatted_def toSend_def)
    show ?thesis
    proof (cases "queue_sendMessage env j formatted")
      case False
      then have "forward_group env (j, gm) w =
          (Inr (), w\<lparr>trace := trace w @ [QSendMessage j formatted False, QEnqueueMessageCheck j]\<rparr>)"
        by (simp add: unfold)
      then show ?thesis
        by (rule forward_group_stepI[where new = "[QSendMessage j formatted False, QEnqueueMessageCheck j]"])
           (simp_all add: effect_jid_simps src)
    next
      case True
      define w1 where "w1 = w\<lparr>trace := trace w @
               [QSendMessage j formatted True, Log Debug ''Piped messages to active container'']\<rparr>"
      show ?thesis
      proof (cases "toSend = []")
        case empty: True
        have "forward_group env (j, gm) w = (Inl TypeError, w1)"
          using True empty by (simp add: unfold io_bind_def last_timestamp_def io_throw_def w1_def)
        then show ?thesis
          by (rule forward_group_stepI[where new =
                "[QSendMessage j formatted True, Log Debug ''Piped messages to active container'']"])
             (simp_all add: effect_jid_simps w1_def src)
      next
        case nonempty: False
        define w2 where "w2 =
          w1\<lparr>lastAgentTimestamp := AList.update j (timestamp (last toSend)) (lastAgentTimestamp w1)\<rparr>"
        obtain r3 w3 new where save: "saveState env w2 = (r3, w3)"
          and f3: "lastTimestamp w3 = lastTimestamp w2" "lastAgentTimestamp w3 = lastAgentTimestamp w2"
                  "registeredGroups w3 = registeredGroups w2"
          and t3: "trace w3 = trace w2 @ new" and n3: "list_all is_store_write new"
          using saveState_effects by blast
        have lt: "last_timestamp toSend = io_return (timestamp (last toSend))"
          using nonempty by (simp add: last_timestamp_def)
        have fg: "forward_group env (j, gm) w =
            io_bind (saveState env) (\<lambda>_. emit (ChanSetTyping j True)) w2"
          unfolding unfold using True
          by (simp add: lt io_bind_def io_return_def set_cursor_def io_modify_def w1_def w2_def)
        have other: "\<forall>k. k \<noteq> j \<longrightarrow> map_of (lastAgentTimestamp w3) k = map_of (lastAgentTimestamp w) k"
          by (simp add: f3 w2_def w1_def update_conv')
        have t2: "trace w3 = trace w @ ([QSendMessage j formatted True,
                                Log Debug ''Piped messages to active container''] @ new)"
          by (simp add: t3 w2_def w1_def)
        have keep: "lastTimestamp w3 = lastTimestamp w" "registeredGroups w3 = registeredGroups w"
          by (simp_all add: f3 w2_def w1_def)
        have quiet: "\<forall>e\<in>set new. effect_jid e = None"
          using n3 by (auto simp: list_all_iff effect_jid_def is_store_write_def split: effect.splits)
        have nosend: "\<forall>j' t b. QSendMessage j' t b \<notin> set new"
          using n3 by (auto simp: list_all_iff is_store_write_def)
        show ?thesis
        proof (cases r3)
          case (Inl e)
          then have "forward_group env (j, gm) w = (Inl e, w3)"
            by (simp add: fg io_bind_def save)
          then show ?thesis
            by (rule forward_group_stepI[where new =
                  "[QSendMessage j formatted True, Log Debug ''Piped messages to active container''] @ new"])
               (simp_all add: keep other t2 quiet nosend src effect_jid_simps)
        next
          case (Inr u)
          then have "forward_group env (j, gm) w =
              (Inr (), w3\<lparr>trace := trace w3 @ [ChanSetTyping j True]\<rparr>)"
            by (simp add: fg io_bind_def save emit_def)
          then show ?thesis
            by (rule forward_group_stepI[where new =
                  "[QSendMessage j formatted True, Log Debug ''Piped messages to active container''] @ new
                   @ [ChanSetTyping j True]"])
               (simp_all add: keep other t2 quiet nosend src effect_jid_simps)
        qed
      qed
    qed
  qed
qed

lemma forward_group_post: "group_post env j gm w (snd (forward_group env (j, gm) w))"
proof -
  obtain r w' new where fg: "forward_group env (j, gm) w = (r, w')"
    and keep: "lastTimestamp w' = lastTimestamp w" "registeredGroups w' = registeredGroups w"
    and other: "\<forall>k. k \<noteq> j \<longrightarrow> map_of (lastAgentTimestamp w') k = map_of (lastAgentTimestamp w) k"
    and tr: "trace w' = trace w @ new"
    and ev: "\<forall>e\<in>set new. effect_jid e = None \<or> effect_jid e = Some j"
    and snt: "\<forall>j' t b. QSendMessage j' t b \<in> set new \<longrightarrow>
        (\<exists>allPending.
           getMessagesSince env j (cursorOf (lastAgentTimestamp w) j) (ASSISTANT_NAME env)
             = Inr allPending \<and>
           t = formatMessages env (if allPending \<noteq> [] then allPending else gm))"
    using forward_group_step[of env j gm w] by (elim exE conjE)
  have skip: "\<not> forwardable env w j gm \<longrightarrow> w' = w"
    using forward_group_skip[of env w j gm] fg by simp
  have ev': "\<forall>e\<in>set new. \<forall>j'. effect_jid e = Some j' \<longrightarrow> j' = j"
    using ev by auto
  have snt': "\<forall>j' t b. QSendMessage j' t b \<in> set new \<longrightarrow> sent_from env w j gm t"
    using snt unfolding sent_from_def by blast
  have "group_post env j gm w w'"
    unfolding group_post_def using keep other skip tr ev' snt' by blast
  then show ?thesis by (simp add: fg)
qed

lemma forwardable_cong:
  "registeredGroups w1 = registeredGroups w \<Longrightarrow> forwardable env w1 j gm = forwardable env w j gm"
  by (simp add: forwardable_def)

lemma sent_from_cong:
  "map_of (lastAgentTimestamp w1) j = map_of (lastAgentTimestamp w) j \<Longrightarrow>
   sent_from env w1 j gm t = sent_from env w j gm t"
  by (simp add: sent_from_def cursorOf_def)

lemma groups_post_Nil: "groups_post env [] w w"
  by (simp add: groups_post_def)

lemma groups_post_single:
  assumes g: "group_post env j gm w w1"
  shows "groups_post env ((j, gm) # rest) w w1"
proof -
  from g obtain new where keep: "lastTimestamp w1 = lastTimestamp w" "registeredGroups w1 = registeredGroups w"
    and other: "\<forall>k. k \<noteq> j \<longrightarrow> map_of (lastAgentTimestamp w1) k = map_of (lastAgentTimestamp w) k"
    and skip: "\<not> forwardable env w j gm \<longrightarrow> w1 = w"
    and tr: "trace w1 = trace w @ new"
    and ev: "\<forall>e\<in>set new. \<forall>j'. effect_jid e = Some j' \<longrightarrow> j' = j"
    and snt: "\<forall>j' t b. QSendMessage j' t b \<in> set new \<longrightarrow> sent_from env w j gm t"
    unfolding group_post_def by (elim exE conjE)
  show ?thesis
  proof (cases "forwardable env w j gm")
    case False
    then have "w1 = w" using skip by simp
    then show ?thesis by (simp add: groups_post_def)
  next
    case True
    have p2: "\<forall>k. (\<forall>gm'. (k, gm') \<in> set ((j, gm) # rest) \<longrightarrow> \<not> forwardable env w k gm') \<longrightarrow>
          map_of (lastAgentTimestamp w1) k = map_of (lastAgentTimestamp w) k"
      using True other by auto
    have p4: "\<forall>e\<in>set new. \<forall>j'. effect_jid e = Some j' \<longrightarrow>
           (\<exists>gm'. (j', gm') \<in> set ((j, gm) # rest) \<and> forwardable env w j' gm')"
      using True ev by auto
    have p5: "\<forall>j' t b. QSendMessage j' t b \<in> set new \<longrightarrow>
           (\<exists>gm'. (j', gm') \<in> set ((j, gm) # rest) \<and> sent_from env w j' gm' t)"
    proof (intro allI impI)
      fix j' t b assume q: "QSendMessage j' t b \<in> set new"
      then have "j' = j" using ev by (auto simp: effect_jid_simps)
      moreover have "sent_from env w j gm t" using snt q by blast
      ultimately show "\<exists>gm'. (j', gm') \<in> set ((j, gm) # rest) \<and> sent_from env w j' gm' t"
        by auto
    qed
    show ?thesis
      unfolding groups_post_def using keep p2 tr p4 p5 by blast
  qed
qed

lemma groups_post_Cons:
  assumes g: "group_post env j gm w w1"
    and r: "groups_post env rest w1 w2"
    and fresh: "j \<notin> fst ` set rest"
  shows "groups_post env ((j, gm) # rest) w w2"
proof -
  from groups_post_single[OF g, of rest] obtain new1 where
    keep1: "lastTimestamp w1 = lastTimestamp w" "registeredGroups w1 = registeredGroups w"
    and q2: "\<forall>k. (\<forall>gm'. (k, gm') \<in> set ((j, gm) # rest) \<longrightarrow> \<not> forwardable env w k gm') \<longrightarrow>
          map_of (lastAgentTimestamp w1) k = map_of (lastAgentTimestamp w) k"
    and tr1: "trace w1 = trace w @ new1"
    and q4: "\<forall>e\<in>set new1. \<forall>j'. effect_jid e = Some j' \<longrightarrow>
           (\<exists>gm'. (j', gm') \<in> set ((j, gm) # rest) \<and> forwardable env w j' gm')"
    and q5: "\<forall>j' t b. QSendMessage j' t b \<in> set new1 \<longrightarrow>
           (\<exists>gm'. (j', gm') \<in> set ((j, gm) # rest) \<and> sent_from env w j' gm' t)"
    unfolding groups_post_def by (elim exE conjE)
  from g have other: "\<forall>k. k \<noteq> j \<longrightarrow> map_of (lastAgentTimestamp w1) k = map_of (lastAgentTimestamp w) k"
    unfolding group_post_def by (elim exE conjE)
  from r obtain new2 where
    keep2: "lastTimestamp w2 = lastTimestamp w1" "registeredGroups w2 = registeredGroups w1"
    and r2: "\<forall>k. (\<forall>gm'. (k, gm') \<in> set rest \<longrightarrow> \<not> forwardable env w1 k gm') \<longrightarrow>
          map_of (lastAgentTimestamp w2) k = map_of (lastAgentTimestamp w1) k"
    and tr2: "trace w2 = trace w1 @ new2"
    and r4: "\<forall>e\<in>set new2. \<forall>j'. effect_jid e = Some j' \<longrightarrow>
           (\<exists>gm'. (j', gm') \<in> set rest \<and> forwardable env w1 j' gm')"
    and r5: "\<forall>j' t b. QSendMessage j' t b \<in> set new2 \<longrightarrow>
           (\<exists>gm'. (j', gm') \<in> set rest \<and> sent_from env w1 j' gm' t)"
    unfolding groups_post_def by (elim exE conjE)
  note fw = forwardable_cong[OF keep1(2)]
  have p1: "lastTimestamp w2 = lastTimestamp w" "registeredGroups w2 = registeredGroups w"
    using keep1 keep2 by simp_all
  have p2: "\<forall>k. (\<forall>gm'. (k, gm') \<in> set ((j, gm) # rest) \<longrightarrow> \<not> forwardable env w k gm') \<longrightarrow>
          map_of (lastAgentTimestamp w2) k = map_of (lastAgentTimestamp w) k"
  proof (intro allI impI)
    fix k assume h: "\<forall>gm'. (k, gm') \<in> set ((j, gm) # rest) \<longrightarrow> \<not> forwardable env w k gm'"
    then have "\<forall>gm'. (k, gm') \<in> set rest \<longrightarrow> \<not> forwardable env w1 k gm'"
      by (simp add: fw)
    then have "map_of (lastAgentTimestamp w2) k = map_of (lastAgentTimestamp w1) k"
      using r2 by blast
    moreover have "map_of (lastAgentTimestamp w1) k = map_of (lastAgentTimestamp w) k"
      using q2 h by blast
    ultimately show "map_of (lastAgentTimestamp w2) k = map_of (lastAgentTimestamp w) k"
      by simp
  qed
  have p3: "trace w2 = trace w @ (new1 @ new2)"
    by (simp add: tr1 tr2)
  have p4: "\<forall>e\<in>set (new1 @ new2). \<forall>j'. effect_jid e = Some j' \<longrightarrow>
           (\<exists>gm'. (j', gm') \<in> set ((j, gm) # rest) \<and> forwardable env w j' gm')"
  proof (intro ballI allI impI)
    fix e j' assume e: "e \<in> set (new1 @ new2)" and ej: "effect_jid e = Some j'"
    from e consider "e \<in> set new1" | "e \<in> set new2"
      by auto
    then show "\<exists>gm'. (j', gm') \<in> set ((j, gm) # rest) \<and> forwardable env w j' gm'"
    proof cases
      case 1
      from q4[rule_format, OF 1 ej] show ?thesis .
    next
      case 2
      from r4[rule_format, OF 2 ej] obtain gm' where "(j', gm') \<in> set rest"
        and "forwardable env w1 j' gm'"
        by (elim exE conjE)
      then have "(j', gm') \<in> set ((j, gm) # rest)" and "forwardable env w j' gm'"
        by (simp_all add: fw)
      then show ?thesis by (intro exI conjI)
    qed
  qed
  have p5: "\<forall>j' t b. QSendMessage j' t b \<in> set (new1 @ new2) \<longrightarrow>
           (\<exists>gm'. (j', gm') \<in> set ((j, gm) # rest) \<and> sent_from env w j' gm' t)"
  proof (intro allI impI)
    fix j' t b assume "QSendMessage j' t b \<in> set (new1 @ new2)"
    then consider "QSendMessage j' t b \<in> set new1" | "QSendMessage j' t b \<in> set new2"
      by auto
    then show "\<exists>gm'. (j', gm') \<in> set ((j, gm) # rest) \<and> sent_from env w j' gm' t"
    proof cases
      case 1
      from q5[rule_format, OF 1] show ?thesis .
    next
      case 2
      from r5[rule_format, OF 2] obtain gm' where m: "(j', gm') \<in> set rest"
        and s: "sent_from env w1 j' gm' t"
        by (elim exE conjE)
      from m have "fst (j', gm') \<in> fst ` set rest" by (rule imageI)
      then have "j' \<in> fst ` set rest" by simp
      with fresh have "j' \<noteq> j" by auto
      then have "map_of (lastAgentTimestamp w1) j' = map_of (lastAgentTimestamp w) j'"
        using other by simp
      from sent_from_cong[OF this] s have "sent_from env w j' gm' t"
        by simp
      moreover have "(j', gm') \<in> set ((j, gm) # rest)"
        using m by simp
      ultimately show ?thesis by (intro exI conjI)
    qed
  qed
  show ?thesis
    unfolding groups_post_def using p1 p2 p3 p4 p5 by blast
qed

lemma forward_groups_post:
  "distinct (map fst es) \<Longrightarrow> groups_post env es w (snd (forward_groups env es w))"
proof (induction es arbitrary: w)
  case Nil
  show ?case by (simp add: io_return_def groups_post_Nil)
next
  case (Cons entry rest)
  obtain j gm where entry: "entry = (j, gm)" by (cases entry)
  obtain r1 w1 where fg: "forward_group env (j, gm) w = (r1, w1)"
    by (cases "forward_group env (j, gm) w")
  have g: "group_post env j gm w w1"
    using forward_group_post[of env j gm w] by (simp add: fg)
  from Cons.prems have fresh: "j \<notin> fst ` set rest" and d: "distinct (map fst rest)"
    by (simp_all add: entry)
  show ?case
  proof (cases r1)
    case (Inl e)
    then have "snd (forward_groups env (entry # rest) w) = w1"
      by (simp add: entry io_bind_def fg)
    then show ?thesis using groups_post_single[OF g] by (simp add: entry)
  next
    case (Inr u)
    then have "snd (forward_groups env (entry # rest) w) = snd (forward_groups env rest w1)"
      by (simp add: entry io_bind_def fg)
    then show ?thesis
      using groups_post_Cons[OF g Cons.IH[OF d] fresh] by (simp add: entry)
  qed
qed

subsection \<open>Partitioning a batch\<close>

lemma add_to_group_map_of:
  "map_of (add_to_group m al) k =
     (if k = chat_jid m then Some ((case map_of al k of None \<Rightarrow> [] | Some g \<Rightarrow> g) @ [m])
      else map_of al k)"
  by (simp add: add_to_group_def update_conv' split: option.splits)

lemma add_to_group_distinct:
  "distinct (map fst al) \<Longrightarrow> distinct (map fst (add_to_group m al))"
  by (simp add: add_to_group_def distinct_update split: option.splits)

lemma partition_distinct:
  "distinct (map fst al) \<Longrightarrow> distinct (map fst (partition_messages ms al))"
  by (induction ms arbitrary: al) (simp_all add: add_to_group_distinct)

lemma partition_map_of:
  "map_of (partition_messages ms al) k =
     (if batch_of k ms = [] then map_of al k
      else Some ((case map_of al k of None \<Rightarrow> [] | Some g \<Rightarrow> g) @ batch_of k ms))"
  by (induction ms arbitrary: al) (simp_all add: add_to_group_map_of batch_of_def)

lemma partition_entry:
  assumes "(k, gm) \<in> set (partition_messages ms [])"
  shows "gm = batch_of k ms"
proof -
  have "distinct (map fst (partition_messages ms []))"
    by (rule partition_distinct) simp
  then have "map_of (partition_messages ms []) k = Some gm"
    using assms by simp
  then show ?thesis
    by (simp add: partition_map_of split: if_splits)
qed

subsection \<open>One tick\<close>

lemma tick_body_read_failed:
  "getNewMessages env (map fst (registeredGroups w)) (lastTimestamp w) (ASSISTANT_NAME env) = Inl e \<Longrightarrow>
   tick_body env w = (Inl e, w)"
  by (simp add: tick_body_def io_bind_def io_get_def of_reader_def io_throw_def)

lemma tick_body_fetched:
  "getNewMessages env (map fst (registeredGroups w)) (lastTimestamp w) (ASSISTANT_NAME env)
     = Inr (msgs, newTs) \<Longrightarrow>
   tick_body env w =
     (if msgs \<noteq> [] then
        io_bind (saveState env) (\<lambda>_. forward_groups env (partition_messages msgs []))
          (w\<lparr>trace := trace w @ [Log Info ''New messages''], lastTimestamp := newTs\<rparr>)
      else (Inr (), w))"
  by (simp add: tick_body_def io_bind_def io_get_def of_reader_def io_return_def emit_def
                io_modify_def)

lemma tick_result:
  "tick env w =
     (case tick_body env w of
        (Inl e, w1) \<Rightarrow>
          (Inr (), w1\<lparr>now := now w1 + POLL_INTERVAL env,
                      trace := trace w1 @ [Log Error ''Error in message loop'',
                                           Sleep (POLL_INTERVAL env)]\<rparr>)
      | (Inr u, w1) \<Rightarrow>
          (Inr (), w1\<lparr>now := now w1 + POLL_INTERVAL env,
                      trace := trace w1 @ [Sleep (POLL_INTERVAL env)]\<rparr>))"
  by (simp add: tick_def io_bind_def io_catch_def emit_def sleep_def io_modify_def
           split: prod.splits sum.splits)

lemma tick_body_first_write_fails:
  assumes "getNewMessages env (map fst (registeredGroups w)) (lastTimestamp w) (ASSISTANT_NAME env)
             = Inr (msgs, newTs)"
    and "msgs \<noteq> []" and "store_faults w = True # fs"
  shows "tick_body env w =
      (Inl StoreUnavailable,
       w\<lparr>lastTimestamp := newTs, store_faults := fs,
         trace := trace w @ [Log Info ''New messages'']\<rparr>)"
  using assms by (simp add: tick_body_fetched io_bind_def saveState_def setRouterState_def)

lemma tick_first_write_fails:
  assumes "getNewMessages env (map fst (registeredGroups w)) (lastTimestamp w) (ASSISTANT_NAME env)
             = Inr (msgs, newTs)"
    and "msgs \<noteq> []" and "store_faults w = True # fs"
  shows "tick env w =
     (Inr (),
      w\<lparr>lastTimestamp := newTs, store_faults := fs, now := now w + POLL_INTERVAL env,
        trace := trace w @ [Log Info ''New messages'', Log Error ''Error in message loop'',
                            Sleep (POLL_INTERVAL env)]\<rparr>)"
  by (simp add: tick_result tick_body_first_write_fails[OF assms])

lemma store_writes_quiet:
  assumes "list_all is_store_write new"
  shows "\<forall>e\<in>set new. \<forall>j. effect_jid e \<noteq> Some j" and "\<forall>j t b. QSendMessage j t b \<notin> set new"
proof -
  have sw: "is_store_write e" if "e \<in> set new" for e
    using assms that by (simp add: list_all_iff)
  show "\<forall>e\<in>set new. \<forall>j. effect_jid e \<noteq> Some j"
  proof (intro ballI allI)
    fix e j assume "e \<in> set new"
    from sw[OF this] show "effect_jid e \<noteq> Some j"
      by (cases e) (simp_all add: is_store_write_def effect_jid_def)
  qed
  show "\<forall>j t b. QSendMessage j t b \<notin> set new"
  proof (intro allI notI)
    fix j t b assume "QSendMessage j t b \<in> set new"
    from sw[OF this] show False
      by (simp add: is_store_write_def)
  qed
qed

lemma tick_postI:
  assumes "registeredGroups w' = registeredGroups w"
    and "\<forall>k. \<not> forwardable env w k (batch_of k msgs) \<longrightarrow>
          map_of (lastAgentTimestamp w') k = map_of (lastAgentTimestamp w) k"
    and "trace w' = trace w @ new"
    and "\<forall>e\<in>set new. \<forall>j. effect_jid e = Some j \<longrightarrow> forwardable env w j (batch_of j msgs)"
    and "\<forall>j t b. QSendMessage j t b \<in> set new \<longrightarrow> sent_from env w j (batch_of j msgs) t"
  shows "tick_post env msgs w w'"
  unfolding tick_post_def using assms by blast

lemma tick_body_post:
  assumes fetched: "getNewMessages env (map fst (registeredGroups w)) (lastTimestamp w)
                      (ASSISTANT_NAME env) = Inr (msgs, newTs)"
  shows "tick_post env msgs w (snd (tick_body env w))"
proof (cases "msgs = []")
  case True
  then have "snd (tick_body env w) = w"
    by (simp add: tick_body_fetched[OF fetched])
  then show ?thesis
    by (simp add: tick_post_def)
next
  case False
  define w0 where "w0 = w\<lparr>trace := trace w @ [Log Info ''New messages''], lastTimestamp := newTs\<rparr>"
  define es where "es = partition_messages msgs []"
  have body: "tick_body env w = io_bind (saveState env) (\<lambda>_. forward_groups env es) w0"
    using False by (simp add: tick_body_fetched[OF fetched] w0_def es_def)
  obtain r2 w2 new2 where save: "saveState env w0 = (r2, w2)"
    and cur2: "lastAgentTimestamp w2 = lastAgentTimestamp w0"
    and reg2: "registeredGroups w2 = registeredGroups w0"
    and tr2: "trace w2 = trace w0 @ new2" and sw2: "list_all is_store_write new2"
    using saveState_effects[of env w0] by (elim exE conjE)
  have cur2': "lastAgentTimestamp w2 = lastAgentTimestamp w"
    and reg2': "registeredGroups w2 = registeredGroups w"
    and tr2': "trace w2 = trace w @ (Log Info ''New messages'' # new2)"
    by (simp_all add: cur2 reg2 tr2 w0_def)
  have quiet2: "\<forall>e\<in>set (Log Info ''New messages'' # new2). \<forall>j. effect_jid e \<noteq> Some j"
    using store_writes_quiet(1)[OF sw2] by (simp add: effect_jid_simps)
  have nosend2: "\<forall>j t b. QSendMessage j t b \<notin> set (Log Info ''New messages'' # new2)"
    using store_writes_quiet(2)[OF sw2] by simp
  show ?thesis
  proof (cases r2)
    case (Inl e)
    then have "snd (tick_body env w) = w2"
      by (simp add: body io_bind_def save)
    moreover have "tick_post env msgs w w2"
    proof (rule tick_postI[where new = "Log Info ''New messages'' # new2"])
      show "registeredGroups w2 = registeredGroups w" by (rule reg2')
      show "\<forall>k. \<not> forwardable env w k (batch_of k msgs) \<longrightarrow>
          map_of (lastAgentTimestamp w2) k = map_of (lastAgentTimestamp w) k"
        by (simp add: cur2')
      show "trace w2 = trace w @ Log Info ''New messages'' # new2" by (rule tr2')
      show "\<forall>e\<in>set (Log Info ''New messages'' # new2).
              \<forall>j. effect_jid e = Some j \<longrightarrow> forwardable env w j (batch_of j msgs)"
        using quiet2 by auto
      show "\<forall>j t b. QSendMessage j t b \<in> set (Log Info ''New messages'' # new2) \<longrightarrow>
              sent_from env w j (batch_of j msgs) t"
        using nosend2 by auto
    qed
    ultimately show ?thesis by simp
  next
    case (Inr u)
    define w3 where "w3 = snd (forward_groups env es w2)"
    have snd3: "snd (tick_body env w) = w3"
      using Inr by (simp add: body io_bind_def save w3_def)
    have "distinct (map fst es)"
      unfolding es_def by (rule partition_distinct) simp
    then have "groups_post env es w2 w3"
      unfolding w3_def by (rule forward_groups_post)
    then obtain new3 where reg3: "registeredGroups w3 = registeredGroups w2"
      and p2: "\<forall>k. (\<forall>gm. (k, gm) \<in> set es \<longrightarrow> \<not> forwardable env w2 k gm) \<longrightarrow>
          map_of (lastAgentTimestamp w3) k = map_of (lastAgentTimestamp w2) k"
      and tr3: "trace w3 = trace w2 @ new3"
      and p4: "\<forall>e\<in>set new3. \<forall>j. effect_jid e = Some j \<longrightarrow>
           (\<exists>gm. (j, gm) \<in> set es \<and> forwardable env w2 j gm)"
      and p5: "\<forall>j t b. QSendMessage j t b \<in> set new3 \<longrightarrow>
           (\<exists>gm. (j, gm) \<in> set es \<and> sent_from env w2 j gm t)"
      unfolding groups_post_def by (elim exE conjE)
    note fw = forwardable_cong[OF reg2']
    have sf: "sent_from env w2 j gm t = sent_from env w j gm t" for j gm t
      by (rule sent_from_cong) (simp add: cur2')
    have entry: "gm = batch_of k msgs" if "(k, gm) \<in> set es" for k gm
      using that unfolding es_def by (rule partition_entry)
    have q2: "\<forall>k. \<not> forwardable env w k (batch_of k msgs) \<longrightarrow>
          map_of (lastAgentTimestamp w3) k = map_of (lastAgentTimestamp w) k"
    proof (intro allI impI)
      fix k assume nf: "\<not> forwardable env w k (batch_of k msgs)"
      have "\<forall>gm. (k, gm) \<in> set es \<longrightarrow> \<not> forwardable env w2 k gm"
        using nf entry by (auto simp: fw)
      from p2[THEN spec, THEN mp, OF this] show "map_of (lastAgentTimestamp w3) k = map_of (lastAgentTimestamp w) k"
        by (simp add: cur2')
    qed
    have q4: "\<forall>e\<in>set new3. \<forall>j. effect_jid e = Some j \<longrightarrow> forwardable env w j (batch_of j msgs)"
    proof (intro ballI allI impI)
      fix e j assume e: "e \<in> set new3" and ej: "effect_jid e = Some j"
      from p4[rule_format, OF e ej] obtain gm where m: "(j, gm) \<in> set es"
        and f: "forwardable env w2 j gm"
        by (elim exE conjE)
      from entry[OF m] f show "forwardable env w j (batch_of j msgs)"
        by (simp add: fw)
    qed
    have q5: "\<forall>j t b. QSendMessage j t b \<in> set new3 \<longrightarrow> sent_from env w j (batch_of j msgs) t"
    proof (intro allI impI)
      fix j t b assume q: "QSendMessage j t b \<in> set new3"
      from p5[rule_format, OF q] obtain gm where m: "(j, gm) \<in> set es"
        and s: "sent_from env w2 j gm t"
        by (elim exE conjE)
      from entry[OF m] s show "sent_from env w j (batch_of j msgs) t"
        by (simp add: sf)
    qed
    have "tick_post env msgs w w3"
    proof (rule tick_postI[where new = "(Log Info ''New messages'' # new2) @ new3"])
      show "registeredGroups w3 = registeredGroups w" by (simp add: reg3 reg2')
      show "\<forall>k. \<not> forwardable env w k (batch_of k msgs) \<longrightarrow>
          map_of (lastAgentTimestamp w3) k = map_of (lastAgentTimestamp w) k" by (rule q2)
      show "trace w3 = trace w @ (Log Info ''New messages'' # new2) @ new3"
        by (simp add: tr3 tr2')
      show "\<forall>e\<in>set ((Log Info ''New messages'' # new2) @ new3).
              \<forall>j. effect_jid e = Some j \<longrightarrow> forwardable env w j (batch_of j msgs)"
      proof (intro ballI allI impI)
        fix e j assume e: "e \<in> set ((Log Info ''New messages'' # new2) @ new3)"
          and ej: "effect_jid e = Some j"
        from e quiet2 ej have "e \<in> set new3" by auto
        from q4[rule_format, OF this ej] show "forwardable env w j (batch_of j msgs)" .
      qed
      show "\<forall>j t b. QSendMessage j t b \<in> set ((Log Info ''New messages'' # new2) @ new3) \<longrightarrow>
              sent_from env w j (batch_of j msgs) t"
      proof (intro allI impI)
        fix j t b assume "QSendMessage j t b \<in> set ((Log Info ''New messages'' # new2) @ new3)"
        with nosend2 have "QSendMessage j t b \<in> set new3" by auto
        from q5[rule_format, OF this] show "sent_from env w j (batch_of j msgs) t" .
      qed
    qed
    then show ?thesis by (simp add: snd3)
  qed
qed

lemma tick_post_holds:
  assumes fetched: "getNewMessages env (map fst (registeredGroups w)) (lastTimestamp w)
                      (ASSISTANT_NAME env) = Inr (msgs, newTs)"
  shows "tick_post env msgs w (snd (tick env w))"
proof -
  obtain r1 w1 where body: "tick_body env w = (r1, w1)" by (cases "tick_body env w")
  have "tick_post env msgs w w1"
    using tick_body_post[OF fetched] by (simp add: body)
  then obtain new where reg: "registeredGroups w1 = registeredGroups w"
    and cur: "\<forall>k. \<not> forwardable env w k (batch_of k msgs) \<longrightarrow>
          map_of (lastAgentTimestamp w1) k = map_of (lastAgentTimestamp w) k"
    and tr: "trace w1 = trace w @ new"
    and ev: "\<forall>e\<in>set new. \<forall>j. effect_jid e = Some j \<longrightarrow> forwardable env w j (batch_of j msgs)"
    and snt: "\<forall>j t b. QSendMessage j t b \<in> set new \<longrightarrow> sent_from env w j (batch_of j msgs) t"
    unfolding tick_post_def by (elim exE conjE)
  define tail where "tail = (case r1 of Inl e \<Rightarrow> [Log Error ''Error in message loop'', Sleep (POLL_INTERVAL env)]
                              | Inr u \<Rightarrow> [Sleep (POLL_INTERVAL env)])"
  have w': "snd (tick env w) = w1\<lparr>now := now w1 + POLL_INTERVAL env, trace := trace w1 @ tail\<rparr>"
    by (simp add: tick_result body tail_def split: sum.splits)
  have tailq: "\<forall>e\<in>set tail. \<forall>j. effect_jid e \<noteq> Some j"
    and tails: "\<forall>j t b. QSendMessage j t b \<notin> set tail"
    by (simp_all add: tail_def effect_jid_simps split: sum.splits)
  show ?thesis
  proof (rule tick_postI[where new = "new @ tail"])
    show "registeredGroups (snd (tick env w)) = registeredGroups w" by (simp add: w' reg)
    show "\<forall>k. \<not> forwardable env w k (batch_of k msgs) \<longrightarrow>
          map_of (lastAgentTimestamp (snd (tick env w))) k = map_of (lastAgentTimestamp w) k"
      using cur by (simp add: w')
    show "trace (snd (tick env w)) = trace w @ new @ tail" by (simp add: w' tr)
    show "\<forall>e\<in>set (new @ tail). \<forall>j. effect_jid e = Some j \<longrightarrow> forwardable env w j (batch_of j msgs)"
    proof (intro ballI allI impI)
      fix e j assume e: "e \<in> set (new @ tail)" and ej: "effect_jid e = Some j"
      from e tailq ej have "e \<in> set new" by auto
      from ev[rule_format, OF this ej] show "forwardable env w j (batch_of j msgs)" .
    qed
    show "\<forall>j t b. QSendMessage j t b \<in> set (new @ tail) \<longrightarrow> sent_from env w j (batch_of j msgs) t"
    proof (intro allI impI)
      fix j t b assume "QSendMessage j t b \<in> set (new @ tail)"
      with tails have "QSendMessage j t b \<in> set new" by auto
      from snt[rule_format, OF this] show "sent_from env w j (batch_of j msgs) t" .
    qed
  qed
qed

lemma tick_events_post:
  assumes "tick_post env msgs w (snd (tick env w))"
  shows "(\<forall>e\<in>set (tick_events env w). \<forall>j. effect_jid e = Some j \<longrightarrow> forwardable env w j (batch_of j msgs)) \<and>
         (\<forall>j t b. QSendMessage j t b \<in> set (tick_events env w) \<longrightarrow> sent_from env w j (batch_of j msgs) t)"
proof -
  from assms obtain new where tr: "trace (snd (tick env w)) = trace w @ new"
    and ev: "\<forall>e\<in>set new. \<forall>j. effect_jid e = Some j \<longrightarrow> forwardable env w j (batch_of j msgs)"
    and snt: "\<forall>j t b. QSendMessage j t b \<in> set new \<longrightarrow> sent_from env w j (batch_of j msgs) t"
    unfolding tick_post_def by (elim exE conjE)
  have "tick_events env w = new"
    by (simp add: tick_events_def tr)
  then show ?thesis using ev snt by simp
qed

subsection \<open>The examples of the dispatch loop\<close>

lemma faulty_faults: "store_faults faulty_world = True # []"
  by (simp add: faulty_world_def)

lemma family_fetched:
  "getNewMessages (example_env family_table active run)
     (map fst (registeredGroups faulty_world)) (lastTimestamp faulty_world)
     (ASSISTANT_NAME (example_env family_table active run)) = Inr (family_table, ''t2'')"
  by (simp add: example_env_def table_getNewMessages_def faulty_world_def family_world_def
                example_world_def family_table_def example_message_def)

subsection \<open>Running the examples\<close>

lemmas run_defs = tick_events_def tick_def tick_body_def io_defs sleep_def forward_group_def
  saveState_def setRouterState_def add_to_group_def set_cursor_def last_timestamp_def
  needsTrigger_def hasTrigger_def cursorOf_def trim_def js_white_space_def utf8_length_def

lemmas invocation_defs = processGroupMessages_def dispatch_def settle_def runAgent_def
  run_outcome_def elapse_def wrappedOnOutput_def store_session_def setSession_def onOutput_def
  resetIdleTimer_def idle_timeout_def truthy_def raw_text_def Let_def

lemmas example_defs = example_env_def example_world_def example_group_def example_message_def
  example_run_def example_output_def
  family_world_def family_table_def faulty_world_def piped_world_def leaky_world_def
  lagging_table_def lagging_world_def household_world_def household_table_def
  table_getMessagesSince_def table_getNewMessages_def

lemma lagging_fetched:
  "getNewMessages (example_env lagging_table active run)
     (map fst (registeredGroups lagging_world)) (lastTimestamp lagging_world)
     (ASSISTANT_NAME (example_env lagging_table active run))
     = Inr ([example_message ''family@g.us'' ''t2'' ''@Andy hi''], ''t2'')"
  by (simp add: example_defs)



lemma piped_events:
  "tick_events (example_env family_table [''family@g.us''] silent_run) piped_world =
     [Log Info ''New messages'', StoreWrite ''last_timestamp'' ''t2'',
      StoreWrite ''last_agent_timestamp'' ''{family@g.us=t2;}'',
      QSendMessage ''family@g.us'' ''[@Andy hi][are you there]'' True,
      Log Debug ''Piped messages to active container'',
      StoreWrite ''last_timestamp'' ''t2'',
      StoreWrite ''last_agent_timestamp'' ''{family@g.us=t2;}'',
      ChanSetTyping ''family@g.us'' True, Sleep 2000]"
  by (simp add: run_defs example_defs)

lemma lagging_events:
  "tick_events (example_env lagging_table [''family@g.us''] silent_run) lagging_world =
     [Log Info ''New messages'', StoreWrite ''last_timestamp'' ''t2'',
      StoreWrite ''last_agent_timestamp'' ''{family@g.us=t0;}'',
      QSendMessage ''family@g.us'' ''[good morning][@Andy hi]'' True,
      Log Debug ''Piped messages to active container'',
      StoreWrite ''last_timestamp'' ''t2'',
      StoreWrite ''last_agent_timestamp'' ''{family@g.us=t2;}'',
      ChanSetTyping ''family@g.us'' True, Sleep 2000]"
  by (simp add: run_defs example_defs)

lemma marker_trace:
  "trace (snd (processGroupMessages (example_env family_table [] marker_run) ''family@g.us''
                 family_world)) =
     [StoreWrite ''last_timestamp'' [],
      StoreWrite ''last_agent_timestamp'' ''{family@g.us=t2;}'',
      Log Info ''Processing messages'',
      ChanSetTyping ''family@g.us'' True,
      WriteTasksSnapshot ''family'' False,
      WriteGroupsSnapshot ''family'' False,
      RunContainerAgent ''family@g.us'' ''[@Andy hi][are you there]'',
      Log Info ''Agent output: hello'',
      ChanSendMessage ''family@g.us'' ''hello'',
      SessionWrite ''family'' ''s1'',
      Log Debug ''Idle timeout, closing container stdin'',
      QCloseStdin ''family@g.us'',
      ChanSetTyping ''family@g.us'' False]"
  by (simp add: invocation_defs run_defs example_defs marker_run_def)

subsection \<open>Forwarding for a group that needs no trigger\<close>








section \<open>Unregistered chats\<close>

text \<open>
  C10: \<open>processGroupMessages\<close> called with a chat id that has no registered group returns
  \<open>true\<close> and leaves the whole world as it was: no field of the core, no table of the
  store and no entry of the trace (so no call of the queue, the channel, the store or the
  worker) differs.
\<close>

theorem processGroupMessages_unregistered:
  "map_of (registeredGroups w) jid = None \<Longrightarrow> processGroupMessages env jid w = (Inr True, w)"
  by (simp add: processGroupMessages_def io_defs)

theorem processGroupMessages_unregistered_witness:
  "map_of (registeredGroups (example_world [(''family@g.us'', example_group ''family'' None)]))
     ''stranger@g.us'' = None \<and>
   processGroupMessages (example_env [example_message ''stranger@g.us'' ''t1'' ''@Andy hi''] [] silent_run)
     ''stranger@g.us'' (example_world [(''family@g.us'', example_group ''family'' None)])
   = (Inr True, example_world [(''family@g.us'', example_group ''family'' None)])"
  using processGroupMessages_unregistered
    [of "example_world [(''family@g.us'', example_group ''family'' None)]" "''stranger@g.us''"
        "example_env [example_message ''stranger@g.us'' ''t1'' ''@Andy hi''] [] silent_run"]
  by (simp add: example_world_def)

section \<open>Loading the state\<close>

text \<open>
  C7, as the claim states it, does not hold: the warning is not logged for every stored
  text that is not valid JSON. The empty text is not valid JSON (\<open>JSON.parse('')\<close>
  throws), but \<open>agentTs ? JSON.parse(agentTs) : {}\<close> never parses it: with the empty
  text stored under \<open>last_agent_timestamp\<close>, \<open>loadState\<close> resets \<open>lastAgentTimestamp\<close>
  to the empty dictionary and logs that the state is loaded, without any warning.
\<close>

theorem loadState_empty_text_counterexample:
  "getRouterState ''last_agent_timestamp''
     ((example_world [(''family@g.us'', example_group ''family'' None)])
        \<lparr>lastAgentTimestamp := [(''old@g.us'', ''t0'')],
         router_state := [(''last_timestamp'', ''t7''), (''last_agent_timestamp'', [])]\<rparr>)
     = Some [] \<and>
   JSON_parse (example_env [] [] silent_run) [] = None \<and>
   loadState (example_env [] [] silent_run)
     ((example_world [(''family@g.us'', example_group ''family'' None)])
        \<lparr>lastAgentTimestamp := [(''old@g.us'', ''t0'')],
         router_state := [(''last_timestamp'', ''t7''), (''last_agent_timestamp'', [])]\<rparr>)
     = (Inr (),
        (example_world [(''family@g.us'', example_group ''family'' None)])
          \<lparr>lastTimestamp := ''t7'',
           router_state := [(''last_timestamp'', ''t7''), (''last_agent_timestamp'', [])],
           trace := [Log Info ''State loaded'']\<rparr>)"
  by (simp add: loadState_def io_defs json_parse_def getRouterState_def example_world_def
                example_env_def)

text \<open>
  C7, amended: \<open>loadState\<close> returns normally from every world. When the stored
  \<open>last_agent_timestamp\<close> is not valid JSON (it is the empty text, which is never
  parsed, or a text that \<open>JSON.parse\<close> rejects), it leaves \<open>lastAgentTimestamp\<close> empty
  and goes on to load the global cursor, the sessions and the groups and to log that the
  state is loaded; the warning is logged before that exactly when the stored text is not
  empty.
\<close>

theorem loadState_corrupted:
  "fst (loadState env w) = Inr () \<and>
   (getRouterState ''last_agent_timestamp'' w = Some s \<and> (s = [] \<or> JSON_parse env s = None) \<longrightarrow>
    loadState env w =
      (Inr (),
       w\<lparr>lastTimestamp := (case getRouterState ''last_timestamp'' w of None \<Rightarrow> [] | Some t \<Rightarrow> t),
         lastAgentTimestamp := [],
         sessions := session_table w,
         registeredGroups := group_table w,
         trace := trace w @
           (if s \<noteq> [] then [Log Warn ''Corrupted last_agent_timestamp in DB, resetting''] else []) @
           [Log Info ''State loaded'']\<rparr>))"
  by (auto simp: loadState_def io_defs json_parse_def getRouterState_def split: option.splits)

theorem loadState_corrupted_witness:
  "getRouterState ''last_agent_timestamp''
     ((example_world [(''family@g.us'', example_group ''family'' None)])
        \<lparr>lastAgentTimestamp := [(''old@g.us'', ''t0'')],
         router_state := [(''last_timestamp'', ''t7''), (''last_agent_timestamp'', ''{family@g.us='')]\<rparr>)
     = Some ''{family@g.us='' \<and>
   JSON_parse (example_env [] [] silent_run) ''{family@g.us='' = None \<and>
   loadState (example_env [] [] silent_run)
     ((example_world [(''family@g.us'', example_group ''family'' None)])
        \<lparr>lastAgentTimestamp := [(''old@g.us'', ''t0'')],
         router_state := [(''last_timestamp'', ''t7''), (''last_agent_timestamp'', ''{family@g.us='')]\<rparr>)
     = (Inr (),
        (example_world [(''family@g.us'', example_group ''family'' None)])
          \<lparr>lastTimestamp := ''t7'',
           router_state := [(''last_timestamp'', ''t7''), (''last_agent_timestamp'', ''{family@g.us='')],
           trace := [Log Warn ''Corrupted last_agent_timestamp in DB, resetting'',
                     Log Info ''State loaded'']\<rparr>)"
  using loadState_corrupted
    [of "example_env [] [] silent_run"
        "(example_world [(''family@g.us'', example_group ''family'' None)])
           \<lparr>lastAgentTimestamp := [(''old@g.us'', ''t0'')],
            router_state := [(''last_timestamp'', ''t7''), (''last_agent_timestamp'', ''{family@g.us='')]\<rparr>"
        "''{family@g.us=''"]
  by (simp add: example_world_def example_env_def getRouterState_def)

section \<open>Advancing the cursor before the worker starts\<close>

text \<open>
  C3: when \<open>processGroupMessages\<close> finds a non-empty backlog that passes the trigger
  check, the cursor of the group is set to the timestamp of the last message of the
  backlog, and the run ends in one of two ways. Either saving the state threw
  \<open>StoreUnavailable\<close>, and then the worker was never started and nothing was sent; or the
  trace of the call begins with the two writes of \<open>saveState\<close>, the second being the
  cursor dictionary with the advanced entry, followed by the start of the worker, and the
  worker is started only that once. Whatever the worker outputs comes after that point.
\<close>

theorem cursor_persisted_before_worker:
  assumes reg: "map_of (registeredGroups w) jid = Some grp"
    and backlog: "getMessagesSince env jid (cursorOf (lastAgentTimestamp w) jid) (ASSISTANT_NAME env) = Inr missed"
    and nonempty: "missed \<noteq> []"
    and trig: "\<not> (needsTrigger env grp \<and> \<not> hasTrigger env missed)"
    and res: "processGroupMessages env jid w = (r, w')"
  shows "cursorOf (AList.update jid (timestamp (last missed)) (lastAgentTimestamp w)) jid
           = timestamp (last missed) \<and>
         ((r = Inl StoreUnavailable \<and>
           (\<exists>new. trace w' = trace w @ new \<and> \<not> list_ex is_run new \<and> \<not> list_ex is_send new)) \<or>
          (\<exists>post. trace w' = trace w @
            [StoreWrite ''last_timestamp'' (lastTimestamp w),
             StoreWrite ''last_agent_timestamp''
               (JSON_stringify env
                  (AList.update jid (timestamp (last missed)) (lastAgentTimestamp w))),
             Log Info ''Processing messages'',
             ChanSetTyping jid True,
             WriteTasksSnapshot (folder grp) (folder grp = MAIN_GROUP_FOLDER env),
             WriteGroupsSnapshot (folder grp) (folder grp = MAIN_GROUP_FOLDER env),
             RunContainerAgent jid (formatMessages env missed)] @ post \<and>
            \<not> list_ex is_run post))"
proof -
  have "dispatch env grp jid missed w = (r, w')"
    using processGroupMessages_dispatch[OF reg backlog nonempty trig] res by simp
  from dispatch_trace[OF nonempty this] show ?thesis
    by (simp add: cursorOf_update)
qed

theorem cursor_persisted_before_worker_witness:
  "getMessagesSince (example_env family_table [] answering_then_failing_run) ''family@g.us''
     (cursorOf (lastAgentTimestamp family_world) ''family@g.us'')
     (ASSISTANT_NAME (example_env family_table [] answering_then_failing_run)) = Inr family_table \<and>
   (\<exists>post.
      trace (snd (processGroupMessages (example_env family_table [] answering_then_failing_run)
                    ''family@g.us'' family_world)) =
        [StoreWrite ''last_timestamp'' [],
         StoreWrite ''last_agent_timestamp'' ''{family@g.us=t2;}'',
         Log Info ''Processing messages'',
         ChanSetTyping ''family@g.us'' True,
         WriteTasksSnapshot ''family'' False,
         WriteGroupsSnapshot ''family'' False,
         RunContainerAgent ''family@g.us'' ''[@Andy hi][are you there]''] @ post \<and>
      \<not> list_ex is_run post)"
proof -
  let ?E = "example_env family_table [] answering_then_failing_run"
  have "\<exists>w'. processGroupMessages ?E ''family@g.us'' family_world =
           (Inr (\<not> invocation_failed (worker_run ?E (example_group ''family'' None) ''family@g.us''
                    family_table family_world) \<or>
                 output_delivered (worker_run ?E (example_group ''family'' None) ''family@g.us''
                    family_table family_world)), w')"
    using invocation_ok[OF family_reg family_backlog family_nonempty family_trig family_healthy,
                        of "[]" answering_then_failing_run]
    by blast
  then have ok: "fst (processGroupMessages ?E ''family@g.us'' family_world) \<noteq> Inl StoreUnavailable"
    by auto
  have res: "processGroupMessages ?E ''family@g.us'' family_world =
      (fst (processGroupMessages ?E ''family@g.us'' family_world),
       snd (processGroupMessages ?E ''family@g.us'' family_world))"
    by simp
  have vals: "trace family_world = []" "lastTimestamp family_world = []"
    "JSON_stringify ?E (AList.update ''family@g.us'' ''t2'' (lastAgentTimestamp family_world))
       = ''{family@g.us=t2;}''"
    "formatMessages ?E family_table = ''[@Andy hi][are you there]''"
    "folder (example_group ''family'' None) = ''family''"
    "MAIN_GROUP_FOLDER ?E = ''main''"
    by (simp_all add: family_world_def example_world_def example_env_def family_table_def
                      example_message_def example_group_def)
  show ?thesis
    using cursor_persisted_before_worker
            [OF family_reg family_backlog family_nonempty family_trig res] ok
    by (simp add: family_backlog family_last vals)
qed

section \<open>Rolling back a failed invocation\<close>




section \<open>Output that is internal only\<close>

text \<open>
  C9: an output event whose text is empty once the internal spans are removed and the rest
  is trimmed sends nothing to the channel and leaves the output-delivered flag as it was.
  Hence a call of \<open>processGroupMessages\<close> that started the worker, for an invocation that
  fails and whose events are all of that kind, sends nothing and sets the cursor of the
  group back to what it read before the dispatch, whatever the store does: the call
  returns \<open>false\<close> with the rollback persisted, or the write of the rollback throws
  \<open>StoreUnavailable\<close>.
\<close>

theorem internal_only_output:
  "(visible_text out = [] \<longrightarrow>
      (\<exists>iv1 w1. onOutput env jid out iv w = (Inr iv1, w1) \<and>
         outputSentToUser iv1 = outputSentToUser iv \<and>
         filter is_send (trace w1) = filter is_send (trace w))) \<and>
   (map_of (registeredGroups w) jid = Some grp \<and>
    getMessagesSince env jid (cursorOf (lastAgentTimestamp w) jid) (ASSISTANT_NAME env) = Inr missed \<and>
    missed \<noteq> [] \<and>
    \<not> (needsTrigger env grp \<and> \<not> hasTrigger env missed) \<and>
    processGroupMessages env jid w = (r, w') \<and>
    list_ex is_run (drop (length (trace w)) (trace w')) \<and>
    invocation_failed (worker_run env grp jid missed w) \<and>
    (\<forall>e\<in>set (events (worker_run env grp jid missed w)). visible_text (snd e) = []) \<longrightarrow>
      lastAgentTimestamp w' =
        AList.update jid (cursorOf (lastAgentTimestamp w) jid)
          (AList.update jid (timestamp (last missed)) (lastAgentTimestamp w)) \<and>
      cursorOf (lastAgentTimestamp w') jid = cursorOf (lastAgentTimestamp w) jid \<and>
      ((r = Inr False \<and>
        map_of (router_state w') ''last_agent_timestamp'' =
          Some (JSON_stringify env (lastAgentTimestamp w'))) \<or>
       r = Inl StoreUnavailable) \<and>
      filter is_send (trace w') = filter is_send (trace w))"
proof (intro conjI impI)
  assume "visible_text out = []"
  then show "\<exists>iv1 w1. onOutput env jid out iv w = (Inr iv1, w1) \<and>
         outputSentToUser iv1 = outputSentToUser iv \<and>
         filter is_send (trace w1) = filter is_send (trace w)"
    by (simp add: onOutput_result is_send_def)
next
  assume h: "map_of (registeredGroups w) jid = Some grp \<and>
    getMessagesSince env jid (cursorOf (lastAgentTimestamp w) jid) (ASSISTANT_NAME env) = Inr missed \<and>
    missed \<noteq> [] \<and>
    \<not> (needsTrigger env grp \<and> \<not> hasTrigger env missed) \<and>
    processGroupMessages env jid w = (r, w') \<and>
    list_ex is_run (drop (length (trace w)) (trace w')) \<and>
    invocation_failed (worker_run env grp jid missed w) \<and>
    (\<forall>e\<in>set (events (worker_run env grp jid missed w)). visible_text (snd e) = [])"
  then have reg: "map_of (registeredGroups w) jid = Some grp"
    and backlog: "getMessagesSince env jid (cursorOf (lastAgentTimestamp w) jid) (ASSISTANT_NAME env) = Inr missed"
    and nonempty: "missed \<noteq> []"
    and trig: "\<not> (needsTrigger env grp \<and> \<not> hasTrigger env missed)"
    and res: "processGroupMessages env jid w = (r, w')"
    and started: "list_ex is_run (drop (length (trace w)) (trace w'))"
    and failed: "invocation_failed (worker_run env grp jid missed w)"
    by simp_all
  from h have quiet: "sent_texts (events (worker_run env grp jid missed w)) = []"
    and undelivered: "\<not> output_delivered (worker_run env grp jid missed w)"
    by (auto simp: sent_texts_def output_delivered_def list_ex_iff filter_empty_conv)
  note general = invocation_general[OF reg backlog nonempty trig res started]
  from general obtain new where tr: "trace w' = trace w @ new"
    and sends: "filter is_send new =
       map (ChanSendMessage jid) (sent_texts (events (worker_run env grp jid missed w)))"
    by (elim exE conjE)
  have a: "filter is_send (trace w') = filter is_send (trace w)"
    by (simp add: tr sends quiet)
  from general failed undelivered
  have b: "lastAgentTimestamp w' =
        AList.update jid (cursorOf (lastAgentTimestamp w) jid)
          (AList.update jid (timestamp (last missed)) (lastAgentTimestamp w))"
    and c: "(r = Inr False \<and>
        map_of (router_state w') ''last_agent_timestamp'' =
          Some (JSON_stringify env (lastAgentTimestamp w'))) \<or>
       r = Inl StoreUnavailable"
    by auto
  have d: "cursorOf (lastAgentTimestamp w') jid = cursorOf (lastAgentTimestamp w) jid"
    by (simp add: b cursorOf_update)
  show "lastAgentTimestamp w' =
        AList.update jid (cursorOf (lastAgentTimestamp w) jid)
          (AList.update jid (timestamp (last missed)) (lastAgentTimestamp w))" by (rule b)
  show "cursorOf (lastAgentTimestamp w') jid = cursorOf (lastAgentTimestamp w) jid" by (rule d)
  show "(r = Inr False \<and>
        map_of (router_state w') ''last_agent_timestamp'' =
          Some (JSON_stringify env (lastAgentTimestamp w'))) \<or>
       r = Inl StoreUnavailable" by (rule c)
  show "filter is_send (trace w') = filter is_send (trace w)" by (rule a)
qed

theorem internal_only_output_witness:
  "visible_text (example_output StatusSuccess (StrResult internal_only_text)) = [] \<and>
   invocation_failed internal_only_run \<and>
   fst (processGroupMessages (example_env family_table [] internal_only_run) ''family@g.us''
          family_world) = Inr False \<and>
   cursorOf (lastAgentTimestamp (snd (processGroupMessages
       (example_env family_table [] internal_only_run) ''family@g.us'' family_world)))
       ''family@g.us'' = ''t0'' \<and>
   filter is_send (trace (snd (processGroupMessages
       (example_env family_table [] internal_only_run) ''family@g.us'' family_world))) = []"
proof -
  let ?E = "example_env family_table [] internal_only_run"
  have f: "invocation_failed internal_only_run"
    by (simp add: invocation_failed_def run_failed_def internal_only_run_def example_run_def
                  example_output_def)
  have q: "\<forall>e\<in>set (events internal_only_run). visible_text (snd e) = []"
    by (simp add: internal_only_run_def example_run_def internal_only_visible)
  have d: "\<not> output_delivered internal_only_run"
    using q by (simp add: output_delivered_def list_ex_iff)
  have t: "trace family_world = []"
    by (simp add: family_world_def example_world_def)
  have res: "processGroupMessages ?E ''family@g.us'' family_world =
      (fst (processGroupMessages ?E ''family@g.us'' family_world),
       snd (processGroupMessages ?E ''family@g.us'' family_world))"
    by simp
  have r: "fst (processGroupMessages ?E ''family@g.us'' family_world) = Inr False"
    by (simp add: family_returns f d)
  note inst = internal_only_output
            [of "example_output StatusSuccess (StrResult internal_only_text)"
                ?E "''family@g.us''"
                "\<lparr>idleTimer = None, hadError = False, outputSentToUser = False\<rparr>"
                family_world "example_group ''family'' None" family_table
                "fst (processGroupMessages ?E ''family@g.us'' family_world)"
                "snd (processGroupMessages ?E ''family@g.us'' family_world)"]
  from inst family_reg family_backlog family_nonempty family_trig res family_started f q
  have "cursorOf (lastAgentTimestamp (snd (processGroupMessages ?E ''family@g.us'' family_world)))
          ''family@g.us'' = cursorOf (lastAgentTimestamp family_world) ''family@g.us'' \<and>
        filter is_send (trace (snd (processGroupMessages ?E ''family@g.us'' family_world)))
          = filter is_send (trace family_world)"
    unfolding family_run by blast
  then show ?thesis
    using r f by (simp add: internal_only_visible family_cursor t)
qed

section \<open>The loop and the errors of a tick\<close>

text \<open>
  C8: no exception raised in the \<open>try\<close> block of a tick ends the loop. Whatever the
  collaborators do and whatever the store does, a tick returns normally: when its \<open>try\<close>
  block throws, the error is logged and the tick waits for the poll interval, with the
  world as the block left it; when the block returns, the tick only waits. The loop is
  still running after any number of iterations, from any iteration on, and the world it
  has reached is the one that its ticks produce one after the other, each starting where
  the one before ended. \<open>startMessageLoop\<close>, when the loop is not already running, marks
  it running, logs the start, and runs that loop from iteration 0.
\<close>

theorem loop_survives_tick_errors:
  "tick env w =
     (case tick_body env w of
        (Inl e, w1) \<Rightarrow>
          (Inr (), w1\<lparr>now := now w1 + POLL_INTERVAL env,
                      trace := trace w1 @ [Log Error ''Error in message loop'',
                                           Sleep (POLL_INTERVAL env)]\<rparr>)
      | (Inr u, w1) \<Rightarrow>
          (Inr (), w1\<lparr>now := now w1 + POLL_INTERVAL env,
                      trace := trace w1 @ [Sleep (POLL_INTERVAL env)]\<rparr>)) \<and>
   message_loop envs i n w =
     (StillRunning, foldl (\<lambda>w' k. snd (tick (envs k) w')) w [i..<i + n]) \<and>
   (\<not> messageLoopRunning w \<longrightarrow>
      startMessageLoop envs n w =
        (StillRunning,
         foldl (\<lambda>w' k. snd (tick (envs k) w'))
           (w\<lparr>messageLoopRunning := True,
              trace := trace w @
                [Log Info (''NanoClaw running (trigger: @'' @ ASSISTANT_NAME (envs 0) @ '')'')]\<rparr>)
           [0..<n]))"
proof -
  have total: "fst (tick env' w') = Inr ()" for env' w'
    by (simp add: tick_result split: prod.splits sum.splits)
  have running: "message_loop envs i n w' =
      (StillRunning, foldl (\<lambda>w' k. snd (tick (envs k) w')) w' [i..<i + n])" for i w'
  proof (induction n arbitrary: i w')
    case 0
    show ?case by simp
  next
    case (Suc n)
    obtain r w2 where t: "tick (envs i) w' = (r, w2)" by (cases "tick (envs i) w'")
    with total[of "envs i" w'] have r: "r = Inr ()" by simp
    have "[i..<i + Suc n] = i # [Suc i..<Suc i + n]"
      by (simp add: upt_conv_Cons)
    then show ?case using Suc.IH[of "Suc i" w2] by (simp add: t r)
  qed
  show ?thesis
    using running[of 0] running[of i w] by (simp add: startMessageLoop_def tick_result)
qed

theorem loop_survives_tick_errors_witness:
  "\<not> messageLoopRunning faulty_world \<and>
   tick_body (example_env family_table [] silent_run) faulty_world =
     (Inl StoreUnavailable,
      faulty_world\<lparr>lastTimestamp := ''t2'', store_faults := [],
                   trace := [Log Info ''New messages'']\<rparr>) \<and>
   tick (example_env family_table [] silent_run) faulty_world =
     (Inr (),
      faulty_world\<lparr>lastTimestamp := ''t2'', store_faults := [], now := 2000,
                   trace := [Log Info ''New messages'', Log Error ''Error in message loop'',
                             Sleep 2000]\<rparr>) \<and>
   startMessageLoop (\<lambda>k. example_env family_table [] silent_run) 2 faulty_world =
     (StillRunning,
      faulty_world\<lparr>lastTimestamp := ''t2'', messageLoopRunning := True, store_faults := [],
                   now := 4000,
                   trace := [Log Info ''NanoClaw running (trigger: @Andy)'',
                             Log Info ''New messages'', Log Error ''Error in message loop'',
                             Sleep 2000, Sleep 2000]\<rparr>)"
proof -
  let ?E = "example_env family_table [] silent_run"
  have body: "tick_body ?E faulty_world =
     (Inl StoreUnavailable,
      faulty_world\<lparr>lastTimestamp := ''t2'', store_faults := [],
                   trace := [Log Info ''New messages'']\<rparr>)"
    using tick_body_first_write_fails[OF family_fetched family_nonempty faulty_faults, of "[]" silent_run]
    by (simp add: faulty_world_def family_world_def example_world_def)
  have idle: "\<not> messageLoopRunning faulty_world"
    by (simp add: faulty_world_def family_world_def example_world_def)
  note inst = loop_survives_tick_errors
            [of ?E faulty_world "\<lambda>k. example_env family_table [] silent_run" 0 2]
  from inst have "tick ?E faulty_world =
     (case tick_body ?E faulty_world of
        (Inl e, w1) \<Rightarrow>
          (Inr (), w1\<lparr>now := now w1 + POLL_INTERVAL ?E,
                      trace := trace w1 @ [Log Error ''Error in message loop'',
                                           Sleep (POLL_INTERVAL ?E)]\<rparr>)
      | (Inr u, w1) \<Rightarrow>
          (Inr (), w1\<lparr>now := now w1 + POLL_INTERVAL ?E,
                      trace := trace w1 @ [Sleep (POLL_INTERVAL ?E)]\<rparr>))"
    by blast
  then have caught: "tick ?E faulty_world =
     (Inr (),
      faulty_world\<lparr>lastTimestamp := ''t2'', store_faults := [], now := 2000,
                   trace := [Log Info ''New messages'', Log Error ''Error in message loop'',
                             Sleep 2000]\<rparr>)"
    unfolding body by (simp add: example_env_def faulty_world_def family_world_def example_world_def)
  from inst idle have "startMessageLoop (\<lambda>k. ?E) 2 faulty_world =
        (StillRunning,
         foldl (\<lambda>w' k. snd (tick ?E w'))
           (faulty_world\<lparr>messageLoopRunning := True,
              trace := trace faulty_world @
                [Log Info (''NanoClaw running (trigger: @'' @ ASSISTANT_NAME ?E @ '')'')]\<rparr>)
           [0..<2])"
    by blast
  moreover have "[0..<2] = [0, Suc 0]"
    by (simp add: upt_conv_Cons numeral_2_eq_2)
  ultimately have loop: "startMessageLoop (\<lambda>k. ?E) 2 faulty_world =
     (StillRunning,
      faulty_world\<lparr>lastTimestamp := ''t2'', messageLoopRunning := True, store_faults := [],
                   now := 4000,
                   trace := [Log Info ''NanoClaw running (trigger: @Andy)'',
                             Log Info ''New messages'', Log Error ''Error in message loop'',
                             Sleep 2000, Sleep 2000]\<rparr>)"
    by (simp add: run_defs example_defs)
  show ?thesis
    using idle body caught loop by blast
qed

section \<open>A tick whose write to the store fails\<close>

text \<open>
  C4, as the claim states it, does not hold: with the global cursor empty, two new messages
  and a store whose next write throws, the tick leaves \<open>lastTimestamp\<close> at \<open>t2\<close> in
  memory while the store holds no \<open>last_timestamp\<close>, and the next fetch from that
  cursor returns nothing.
\<close>

theorem global_cursor_counterexample:
  "lastTimestamp faulty_world = [] \<and>
   lastTimestamp (snd (tick (example_env family_table [] silent_run) faulty_world)) = ''t2'' \<and>
   map_of (router_state (snd (tick (example_env family_table [] silent_run) faulty_world)))
     ''last_timestamp'' = None \<and>
   getNewMessages (example_env family_table [] silent_run)
     (map fst (registeredGroups (snd (tick (example_env family_table [] silent_run) faulty_world))))
     (lastTimestamp (snd (tick (example_env family_table [] silent_run) faulty_world)))
     (ASSISTANT_NAME (example_env family_table [] silent_run)) = Inr ([], ''t2'')"
  unfolding tick_first_write_fails[OF family_fetched family_nonempty faulty_faults]
  by (simp add: faulty_world_def family_world_def example_world_def example_env_def
                table_getNewMessages_def family_table_def example_message_def)

text \<open>
  C4, amended: when a tick has fetched messages and the first write of \<open>saveState\<close>
  throws, the tick is abandoned there: the error is logged, the loop waits for the poll
  interval, the store is unchanged and no group is looked at; but \<open>lastTimestamp\<close>, which
  the code assigns before it saves, is already the newest timestamp fetched, and that is the
  cursor the next tick reads.
\<close>

theorem failed_persist_keeps_advanced_cursor:
  assumes "getNewMessages env (map fst (registeredGroups w)) (lastTimestamp w) (ASSISTANT_NAME env)
             = Inr (msgs, newTs)"
    and "msgs \<noteq> []" and "store_faults w = True # fs"
  shows "tick env w =
     (Inr (),
      w\<lparr>lastTimestamp := newTs, store_faults := fs, now := now w + POLL_INTERVAL env,
        trace := trace w @ [Log Info ''New messages'', Log Error ''Error in message loop'',
                            Sleep (POLL_INTERVAL env)]\<rparr>)"
  using assms by (rule tick_first_write_fails)

theorem failed_persist_keeps_advanced_cursor_witness:
  "getNewMessages (example_env family_table [] silent_run)
     (map fst (registeredGroups faulty_world)) (lastTimestamp faulty_world)
     (ASSISTANT_NAME (example_env family_table [] silent_run)) = Inr (family_table, ''t2'') \<and>
   store_faults faulty_world = [True] \<and>
   tick (example_env family_table [] silent_run) faulty_world =
     (Inr (),
      faulty_world\<lparr>lastTimestamp := ''t2'', store_faults := [], now := 2000,
                   trace := [Log Info ''New messages'', Log Error ''Error in message loop'',
                             Sleep 2000]\<rparr>)"
  using failed_persist_keeps_advanced_cursor[OF family_fetched family_nonempty faulty_faults,
          of "[]" silent_run]
        family_fetched[of "[]" silent_run]
  by (simp add: faulty_world_def family_world_def example_world_def example_env_def)

section \<open>Groups that wait for their trigger\<close>



section \<open>The text that is forwarded to an active worker\<close>

text \<open>
  C2, as the claim states it, does not hold: when the cursor of the group is already past
  every message of the batch (here at \<open>t2\<close>, the global cursor being empty), the backlog
  read from the cursor is empty, and the tick forwards the text of the batch to the active
  worker, not the text of the (empty) backlog.
\<close>

theorem forwarded_text_counterexample:
  "getMessagesSince (example_env family_table [''family@g.us''] silent_run) ''family@g.us''
     (cursorOf (lastAgentTimestamp piped_world) ''family@g.us'')
     (ASSISTANT_NAME (example_env family_table [''family@g.us''] silent_run)) = Inr [] \<and>
   formatMessages (example_env family_table [''family@g.us''] silent_run) [] = [] \<and>
   QSendMessage ''family@g.us'' ''[@Andy hi][are you there]'' True
     \<in> set (tick_events (example_env family_table [''family@g.us''] silent_run) piped_world)"
  by (simp add: piped_events) (simp add: example_defs cursorOf_def)

text \<open>
  C2, amended: every text that a tick hands to \<open>sendMessage\<close> of the queue for a group is
  built from the full backlog of the group since its cursor when that backlog is not
  empty, and from the messages of the group in the batch of the tick when it is empty.
\<close>

theorem forwarded_text_source:
  assumes fetched: "getNewMessages env (map fst (registeredGroups w)) (lastTimestamp w)
                      (ASSISTANT_NAME env) = Inr (msgs, newTs)"
    and sent: "QSendMessage jid t ok \<in> set (tick_events env w)"
  shows "\<exists>allPending.
           getMessagesSince env jid (cursorOf (lastAgentTimestamp w) jid) (ASSISTANT_NAME env)
             = Inr allPending \<and>
           t = formatMessages env (if allPending \<noteq> [] then allPending else batch_of jid msgs)"
proof -
  have "sent_from env w jid (batch_of jid msgs) t"
    using tick_events_post[OF tick_post_holds[OF fetched]] sent by blast
  then show ?thesis
    by (simp add: sent_from_def)
qed

theorem forwarded_text_source_witness:
  "getNewMessages (example_env lagging_table [''family@g.us''] silent_run)
     (map fst (registeredGroups lagging_world)) (lastTimestamp lagging_world)
     (ASSISTANT_NAME (example_env lagging_table [''family@g.us''] silent_run))
     = Inr ([example_message ''family@g.us'' ''t2'' ''@Andy hi''], ''t2'') \<and>
   QSendMessage ''family@g.us'' ''[good morning][@Andy hi]'' True
     \<in> set (tick_events (example_env lagging_table [''family@g.us''] silent_run) lagging_world) \<and>
   getMessagesSince (example_env lagging_table [''family@g.us''] silent_run) ''family@g.us''
     (cursorOf (lastAgentTimestamp lagging_world) ''family@g.us'')
     (ASSISTANT_NAME (example_env lagging_table [''family@g.us''] silent_run)) = Inr lagging_table \<and>
   ''[good morning][@Andy hi]''
     = formatMessages (example_env lagging_table [''family@g.us''] silent_run) lagging_table"
proof -
  have sent: "QSendMessage ''family@g.us'' ''[good morning][@Andy hi]'' True
     \<in> set (tick_events (example_env lagging_table [''family@g.us''] silent_run) lagging_world)"
    by (simp add: lagging_events)
  have backlog: "getMessagesSince (example_env lagging_table [''family@g.us''] silent_run)
     ''family@g.us'' (cursorOf (lastAgentTimestamp lagging_world) ''family@g.us'')
     (ASSISTANT_NAME (example_env lagging_table [''family@g.us''] silent_run)) = Inr lagging_table"
    by (simp add: example_defs cursorOf_def)
  have nonempty: "lagging_table \<noteq> []"
    by (simp add: lagging_table_def)
  show ?thesis
    using forwarded_text_source[OF lagging_fetched sent] sent lagging_fetched
    by (simp add: backlog nonempty)
qed

section \<open>The idle timer\<close>

text \<open>
  C6, as the claim states it, does not hold: an output event without a result does not
  touch the timer. With a timeout of 1800000 ms, an event without a result arriving at
  1799999 leaves the deadline at 1800000 instead of moving it to 3599999, and in the run
  \<open>marker_run\<close> the input of the worker is closed one millisecond after such an event.
\<close>

theorem idle_timer_reset_counterexample:
  "now (family_world\<lparr>now := 1799999\<rparr>)
     + IDLE_TIMEOUT (example_env family_table [] marker_run) = 3599999 \<and>
   fst (onOutput (example_env family_table [] marker_run) ''family@g.us''
          \<lparr>status = StatusSuccess, result = NoResult, newSessionId = Some ''s1'', error = None\<rparr>
          \<lparr>idleTimer = Some 1800000, hadError = False, outputSentToUser = True\<rparr>
          (family_world\<lparr>now := 1799999\<rparr>))
     = Inr \<lparr>idleTimer = Some 1800000, hadError = False, outputSentToUser = True\<rparr> \<and>
   QCloseStdin ''family@g.us''
     \<in> set (trace (snd (processGroupMessages (example_env family_table [] marker_run)
                          ''family@g.us'' family_world)))"
  by (simp add: marker_trace) (simp add: onOutput_def io_defs truthy_def example_defs)

text \<open>
  C6, amended: an output event that carries a result sets the idle timer to the idle timeout
  from now, and an event without a result leaves the timer as it is; when the timer fires
  it writes a debug line to the log and calls \<open>closeStdin\<close> of the queue for the chat,
  and nothing else; and time passing does nothing but run that callback once the deadline
  is reached. Nothing here terminates the worker.
\<close>

theorem idle_timer_policy:
  "(\<exists>iv' w'. onOutput env jid out iv w = (Inr iv', w') \<and>
      idleTimer iv' =
        (if truthy (result out) then Some (now w + IDLE_TIMEOUT env) else idleTimer iv)) \<and>
   idle_timeout jid w =
     (Inr (), w\<lparr>trace := trace w @ [Log Debug ''Idle timeout, closing container stdin'',
                                      QCloseStdin jid]\<rparr>) \<and>
   elapse jid d iv w =
     (if (\<exists>t. idleTimer iv = Some t \<and> t \<le> now w + d)
      then (Inr (iv\<lparr>idleTimer := None\<rparr>),
            w\<lparr>now := now w + d,
              trace := trace w @ [Log Debug ''Idle timeout, closing container stdin'',
                                  QCloseStdin jid]\<rparr>)
      else (Inr iv, w\<lparr>now := now w + d\<rparr>))"
  by (simp add: onOutput_result idle_timeout_result elapse_result)

theorem idle_timer_policy_witness:
  "truthy (result (example_output StatusSuccess (StrResult ''hello''))) \<and>
   map_sum id idleTimer
     (fst (onOutput (example_env family_table [] marker_run) ''family@g.us''
             (example_output StatusSuccess (StrResult ''hello''))
             \<lparr>idleTimer = None, hadError = False, outputSentToUser = False\<rparr> family_world))
     = Inr (Some 1800000) \<and>
   elapse ''family@g.us'' 1800000
     \<lparr>idleTimer = Some 1800000, hadError = False, outputSentToUser = True\<rparr> family_world =
     (Inr \<lparr>idleTimer = None, hadError = False, outputSentToUser = True\<rparr>,
      family_world\<lparr>now := 1800000,
                   trace := [Log Debug ''Idle timeout, closing container stdin'',
                             QCloseStdin ''family@g.us'']\<rparr>)"
  using idle_timer_policy
          [of "example_env family_table [] marker_run" "''family@g.us''"
              "example_output StatusSuccess (StrResult ''hello'')"
              "\<lparr>idleTimer = None, hadError = False, outputSentToUser = False\<rparr>" family_world
              1800000]
        idle_timer_policy
          [of "example_env family_table [] marker_run" "''family@g.us''"
              "example_output StatusSuccess (StrResult ''hello'')"
              "\<lparr>idleTimer = Some 1800000, hadError = False, outputSentToUser = True\<rparr>" family_world
              1800000]
  by (auto simp: truthy_def example_defs)

end
